theory Spec2Isabelle
  imports Main "HOL-Library.Multiset" "HOL-Library.Code_Target_Nat"
begin

section \<open>Platform layer: strings, values, JSON text\<close>

text \<open>
  The sources are TypeScript running on Node. A JavaScript string is a sequence of
  UTF-16 code units, so \<open>length\<close>, \<open>substring\<close>, \<open>split\<close> and \<open>trim\<close> count and compare
  code units; a string is modelled as the list of its code units. A \<open>Buffer\<close> is a list of
  bytes. String literals of the sources are written \<open>ascii ''...''\<close>.
\<close>

type_synonym jsstring = "nat list"
type_synonym bytes = "nat list"

definition ascii :: "string \<Rightarrow> jsstring" where
  "ascii s = map of_char s"

definition NL :: nat where "NL = 10"

text \<open>\<open>s.startsWith(p)\<close> and \<open>s.includes(p)\<close>.\<close>

fun startsWith :: "jsstring \<Rightarrow> jsstring \<Rightarrow> bool" where
  "startsWith s [] = True"
| "startsWith [] (p # ps) = False"
| "startsWith (c # cs) (p # ps) = (c = p \<and> startsWith cs ps)"

fun str_includes :: "jsstring \<Rightarrow> jsstring \<Rightarrow> bool" where
  "str_includes [] p = (p = [])"
| "str_includes (c # cs) p = (startsWith (c # cs) p \<or> str_includes cs p)"

text \<open>\<open>s.split(sep)\<close> for a separator of one code unit: never empty, \<open>''.split(sep)\<close> is \<open>['']\<close>.\<close>

fun str_split :: "nat \<Rightarrow> jsstring \<Rightarrow> jsstring list" where
  "str_split sep [] = [[]]"
| "str_split sep (c # cs) =
     (if c = sep then [] # str_split sep cs
      else (case str_split sep cs of [] \<Rightarrow> [[c]] | l # ls \<Rightarrow> (c # l) # ls))"

text \<open>
  \<open>s.trim()\<close> removes the code units of ECMAScript's WhiteSpace and LineTerminator
  productions from both ends.
\<close>

definition isWhiteSpace :: "nat \<Rightarrow> bool" where
  "isWhiteSpace c \<longleftrightarrow>
     c = 9 \<or> c = 10 \<or> c = 11 \<or> c = 12 \<or> c = 13 \<or> c = 32 \<or> c = 160 \<or> c = 5760 \<or>
     (8192 \<le> c \<and> c \<le> 8202) \<or> c = 8232 \<or> c = 8233 \<or> c = 8239 \<or> c = 8287 \<or>
     c = 12288 \<or> c = 65279"

definition trim :: "jsstring \<Rightarrow> jsstring" where
  "trim s = rev (dropWhile isWhiteSpace (rev (dropWhile isWhiteSpace s)))"

text \<open>
  \<open>s.toLowerCase()\<close>. The sources only ever compare the lowered text with ASCII words, so
  the mapping is written out for the code units whose lowercase form contains an ASCII
  letter: \<open>A\<close> to \<open>Z\<close>, U+212A (Kelvin sign, lowered to \<open>k\<close>) and U+0130 (lowered to \<open>i\<close>
  followed by U+0307). Every other code unit is lowered by the platform to code units
  outside ASCII and is kept as it is here.
\<close>

fun toLowerCase :: "jsstring \<Rightarrow> jsstring" where
  "toLowerCase [] = []"
| "toLowerCase (c # cs) =
     (if 65 \<le> c \<and> c \<le> 90 then (c + 32) # toLowerCase cs
      else if c = 8490 then 107 # toLowerCase cs
      else if c = 304 then 105 # 775 # toLowerCase cs
      else c # toLowerCase cs)"

text \<open>\<open>s.replace(/a/g, b)\<close> for single code units.\<close>

definition replaceAll :: "nat \<Rightarrow> nat \<Rightarrow> jsstring \<Rightarrow> jsstring" where
  "replaceAll a b s = map (\<lambda>c. if c = a then b else c) s"

text \<open>Decimal rendering of an integer, as in a template literal.\<close>

fun digits :: "nat \<Rightarrow> nat \<Rightarrow> jsstring" where
  "digits 0 n = []"
| "digits (Suc fuel) n = (if n < 10 then [48 + n] else digits fuel (n div 10) @ [48 + n mod 10])"

definition natToString :: "nat \<Rightarrow> jsstring" where
  "natToString n = digits (Suc n) n"

definition intToString :: "int \<Rightarrow> jsstring" where
  "intToString i = (if i < 0 then 45 # natToString (nat (- i)) else natToString (nat i))"

subsection \<open>\<open>Buffer.toString()\<close>: UTF-8 decoding of one chunk\<close>

text \<open>
  Each \<open>data\<close> event carries a \<open>Buffer\<close>, and the handlers call \<open>toString()\<close> on that one
  buffer. The decoder replaces every ill-formed or truncated sequence by U+FFFD (one
  replacement per maximal subpart) and turns a code point above U+FFFF into a surrogate
  pair. The decoder state \<open>Some (needed, cp, lo, hi)\<close> is: continuation bytes still needed,
  the code point so far, and the range allowed for the next byte.
\<close>

definition utf16 :: "nat \<Rightarrow> jsstring" where
  "utf16 cp = (if cp < 65536 then [cp]
               else [55296 + (cp - 65536) div 1024, 56320 + (cp - 65536) mod 1024])"

fun utf8_decode :: "(nat \<times> nat \<times> nat \<times> nat) option \<Rightarrow> bytes \<Rightarrow> jsstring" where
  "utf8_decode None [] = []"
| "utf8_decode (Some st) [] = [65533]"
| "utf8_decode None (b # bs) =
     (if b < 128 then b # utf8_decode None bs
      else if 194 \<le> b \<and> b \<le> 223 then utf8_decode (Some (1, b mod 32, 128, 191)) bs
      else if 224 \<le> b \<and> b \<le> 239 then
        utf8_decode (Some (2, b mod 16, if b = 224 then 160 else 128, if b = 237 then 159 else 191)) bs
      else if 240 \<le> b \<and> b \<le> 244 then
        utf8_decode (Some (3, b mod 8, if b = 240 then 144 else 128, if b = 244 then 143 else 191)) bs
      else 65533 # utf8_decode None bs)"
| "utf8_decode (Some (needed, cp, lo, hi)) (b # bs) =
     (if lo \<le> b \<and> b \<le> hi then
        (if needed = 1 then utf16 (cp * 64 + b mod 64) @ utf8_decode None bs
         else utf8_decode (Some (needed - 1, cp * 64 + b mod 64, 128, 191)) bs)
      else if b < 128 then 65533 # b # utf8_decode None bs
      else if 194 \<le> b \<and> b \<le> 223 then 65533 # utf8_decode (Some (1, b mod 32, 128, 191)) bs
      else if 224 \<le> b \<and> b \<le> 239 then
        65533 # utf8_decode (Some (2, b mod 16, if b = 224 then 160 else 128, if b = 237 then 159 else 191)) bs
      else if 240 \<le> b \<and> b \<le> 244 then
        65533 # utf8_decode (Some (3, b mod 8, if b = 240 then 144 else 128, if b = 244 then 143 else 191)) bs
      else 65533 # 65533 # utf8_decode None bs)"

definition Buffer_toString :: "bytes \<Rightarrow> jsstring" where
  "Buffer_toString data = utf8_decode None data"

subsection \<open>JavaScript values\<close>

text \<open>
  The values the sources handle are the results of \<open>JSON.parse\<close>, \<open>undefined\<close>, and object
  literals built from them. A number keeps the text it was written with (its lexeme):
  the platform rounds it to a double, which is outside this model. \<open>Native\<close> is a
  built-in object reached through the prototype chain, kept by the text it prints as.
  The members of an object are kept in source order; a repeated key reads as its last
  occurrence.
\<close>

datatype jsval =
    Undefined
  | Null
  | Bool bool
  | Num jsstring
  | Str jsstring
  | Arr "jsval list"
  | Obj "(jsstring \<times> jsval) list"
  | Native jsstring

text \<open>
  \<open>Number_isZero\<close> and \<open>Number_toString\<close> read a number lexeme. They are exact for an
  integer written without fraction and exponent and below \<open>2^53\<close> in magnitude; for
  other lexemes the platform's rounding is not modelled (the text is kept, and a value
  counts as zero when its mantissa has no nonzero digit).
\<close>

definition Number_isZero :: "jsstring \<Rightarrow> bool" where
  "Number_isZero lx =
     list_all (\<lambda>c. c < 49 \<or> 57 < c) (takeWhile (\<lambda>c. c \<noteq> 101 \<and> c \<noteq> 69) lx)"

definition Number_toString :: "jsstring \<Rightarrow> jsstring" where
  "Number_toString lx = (if lx = ascii ''-0'' then ascii ''0'' else lx)"

text \<open>Truthiness, as tested by \<open>if (v)\<close>, \<open>v && ...\<close> and \<open>v || ...\<close>.\<close>

fun truthy :: "jsval \<Rightarrow> bool" where
  "truthy Undefined = False"
| "truthy Null = False"
| "truthy (Bool b) = b"
| "truthy (Num lx) = (\<not> Number_isZero lx)"
| "truthy (Str s) = (s \<noteq> [])"
| "truthy (Arr xs) = True"
| "truthy (Obj kvs) = True"
| "truthy (Native s) = True"

definition or_else :: "jsval \<Rightarrow> jsval \<Rightarrow> jsval" where
  "or_else a b = (if truthy a then a else b)"

text \<open>
  Property read \<open>v.k\<close>, for the property names the sources use (none of them is defined
  on a built-in prototype): \<open>None\<close> is the \<open>TypeError\<close> raised on \<open>null\<close> and \<open>undefined\<close>;
  a missing property and any property of a primitive or an array read as \<open>undefined\<close>.
  \<open>get_opt\<close> is the optional chain \<open>v?.k\<close>.
\<close>

fun get :: "jsval \<Rightarrow> jsstring \<Rightarrow> jsval option" where
  "get Undefined k = None"
| "get Null k = None"
| "get (Obj kvs) k = Some (case map_of (rev kvs) k of None \<Rightarrow> Undefined | Some v \<Rightarrow> v)"
| "get (Bool b) k = Some Undefined"
| "get (Num lx) k = Some Undefined"
| "get (Str s) k = Some Undefined"
| "get (Arr xs) k = Some Undefined"
| "get (Native s) k = Some Undefined"

definition get_opt :: "jsval \<Rightarrow> jsstring \<Rightarrow> jsval" where
  "get_opt v k = (case get v k of None \<Rightarrow> Undefined | Some x \<Rightarrow> x)"

text \<open>
  Conversion to a string, as done by a template literal and by \<open>s += v\<close>: \<open>None\<close> is the
  \<open>TypeError\<close> raised for an object whose own \<open>toString\<close> member (a parsed value, so not
  callable) hides the inherited method. An array prints its elements joined by commas,
  \<open>null\<close> and \<open>undefined\<close> elements as the empty string.
\<close>

fun join_opt :: "jsstring \<Rightarrow> jsstring option list \<Rightarrow> jsstring option" where
  "join_opt sep [] = Some []"
| "join_opt sep [x] = x"
| "join_opt sep (x # y # ys) =
     (case x of None \<Rightarrow> None
      | Some a \<Rightarrow> (case join_opt sep (y # ys) of None \<Rightarrow> None | Some r \<Rightarrow> Some (a @ sep @ r)))"

fun ToString :: "jsval \<Rightarrow> jsstring option" where
  "ToString Undefined = Some (ascii ''undefined'')"
| "ToString Null = Some (ascii ''null'')"
| "ToString (Bool b) = Some (if b then ascii ''true'' else ascii ''false'')"
| "ToString (Num lx) = Some (Number_toString lx)"
| "ToString (Str s) = Some s"
| "ToString (Arr xs) =
     join_opt (ascii '','')
       (map (\<lambda>x. if x = Undefined \<or> x = Null then Some [] else ToString x) xs)"
| "ToString (Obj kvs) =
     (if ascii ''toString'' \<in> fst ` set kvs then None else Some (ascii ''[object Object]''))"
| "ToString (Native s) = Some s"

subsection \<open>\<open>JSON.parse\<close>\<close>

text \<open>
  The JSON grammar of ECMA-404 as \<open>JSON.parse\<close> reads it: one value between optional
  white space (space, tab, line feed, carriage return); \<open>None\<close> is the \<open>SyntaxError\<close>.
  The recursion is bounded by a counter that starts at twice the length of the text plus
  two: every two nested calls consume at least one code unit.
\<close>

definition isJSONWhiteSpace :: "nat \<Rightarrow> bool" where
  "isJSONWhiteSpace c \<longleftrightarrow> c = 32 \<or> c = 9 \<or> c = 10 \<or> c = 13"

definition skip_ws :: "jsstring \<Rightarrow> jsstring" where
  "skip_ws s = dropWhile isJSONWhiteSpace s"

definition isDigit :: "nat \<Rightarrow> bool" where
  "isDigit c \<longleftrightarrow> 48 \<le> c \<and> c \<le> 57"

definition hexval :: "nat \<Rightarrow> nat option" where
  "hexval c =
     (if 48 \<le> c \<and> c \<le> 57 then Some (c - 48)
      else if 97 \<le> c \<and> c \<le> 102 then Some (c - 87)
      else if 65 \<le> c \<and> c \<le> 70 then Some (c - 55)
      else None)"

definition hex4 :: "nat \<Rightarrow> nat \<Rightarrow> nat \<Rightarrow> nat \<Rightarrow> nat option" where
  "hex4 a b c d =
     (case (hexval a, hexval b, hexval c, hexval d) of
        (Some w, Some x, Some y, Some z) \<Rightarrow> Some (((w * 16 + x) * 16 + y) * 16 + z)
      | _ \<Rightarrow> None)"

definition simple_escape :: "nat \<Rightarrow> nat option" where
  "simple_escape e =
     (if e = 34 then Some 34 else if e = 92 then Some 92 else if e = 47 then Some 47
      else if e = 98 then Some 8 else if e = 102 then Some 12 else if e = 110 then Some 10
      else if e = 114 then Some 13 else if e = 116 then Some 9 else None)"

text \<open>The characters of a string after its opening quote; the result is the decoded
  string and the text after the closing quote.\<close>

fun parse_string_chars :: "jsstring \<Rightarrow> jsstring \<Rightarrow> (jsstring \<times> jsstring) option" where
  "parse_string_chars acc [] = None"
| "parse_string_chars acc [c] = (if c = 34 then Some (acc, []) else None)"
| "parse_string_chars acc (c # e # cs) =
     (if c = 34 then Some (acc, e # cs)
      else if c = 92 then
        (if e = 117 then
           (case cs of
              h1 # h2 # h3 # h4 # rest \<Rightarrow>
                (case hex4 h1 h2 h3 h4 of
                   None \<Rightarrow> None
                 | Some u \<Rightarrow> parse_string_chars (acc @ [u]) rest)
            | _ \<Rightarrow> None)
         else
           (case simple_escape e of
              None \<Rightarrow> None
            | Some x \<Rightarrow> parse_string_chars (acc @ [x]) cs))
      else if c < 32 then None
      else parse_string_chars (acc @ [c]) (e # cs))"

text \<open>A number: \<open>-? (0 | [1-9][0-9]*) (. [0-9]+)? ([eE] [+-]? [0-9]+)?\<close>. Each part gives
  its text and what follows it; \<open>parse_number\<close> gives the lexeme and the text after it.\<close>

definition number_int :: "jsstring \<Rightarrow> (jsstring \<times> jsstring) option" where
  "number_int s =
     (case s of
        [] \<Rightarrow> None
      | c # cs \<Rightarrow>
          if c = 48 then Some ([48], cs)
          else if isDigit c then Some (takeWhile isDigit s, dropWhile isDigit s)
          else None)"

definition number_frac :: "jsstring \<Rightarrow> (jsstring \<times> jsstring) option" where
  "number_frac s =
     (case s of
        [] \<Rightarrow> Some ([], s)
      | c # cs \<Rightarrow>
          if c = 46 then
            (if takeWhile isDigit cs = [] then None
             else Some (46 # takeWhile isDigit cs, dropWhile isDigit cs))
          else Some ([], s))"

definition number_sign :: "jsstring \<Rightarrow> jsstring \<times> jsstring" where
  "number_sign s =
     (case s of
        [] \<Rightarrow> ([], s)
      | c # cs \<Rightarrow> if c = 43 \<or> c = 45 then ([c], cs) else ([], s))"

definition number_exp :: "jsstring \<Rightarrow> (jsstring \<times> jsstring) option" where
  "number_exp s =
     (case s of
        [] \<Rightarrow> Some ([], s)
      | c # cs \<Rightarrow>
          if c = 101 \<or> c = 69 then
            (case number_sign cs of
               (sg, r) \<Rightarrow>
                 if takeWhile isDigit r = [] then None
                 else Some (c # sg @ takeWhile isDigit r, dropWhile isDigit r))
          else Some ([], s))"

definition parse_number :: "jsstring \<Rightarrow> (jsstring \<times> jsstring) option" where
  "parse_number s =
     (case (if startsWith s [45] then ([45], drop 1 s) else ([], s)) of
        (neg, s1) \<Rightarrow>
          (case number_int s1 of
             None \<Rightarrow> None
           | Some (ip, s2) \<Rightarrow>
               (case number_frac s2 of
                  None \<Rightarrow> None
                | Some (fr, s3) \<Rightarrow>
                    (case number_exp s3 of
                       None \<Rightarrow> None
                     | Some (ex, s4) \<Rightarrow> Some (neg @ ip @ fr @ ex, s4)))))"

fun parse_value :: "nat \<Rightarrow> jsstring \<Rightarrow> (jsval \<times> jsstring) option"
  and parse_elements :: "nat \<Rightarrow> jsval list \<Rightarrow> jsstring \<Rightarrow> (jsval list \<times> jsstring) option"
  and parse_members ::
    "nat \<Rightarrow> (jsstring \<times> jsval) list \<Rightarrow> jsstring \<Rightarrow> ((jsstring \<times> jsval) list \<times> jsstring) option"
where
  "parse_value 0 s = None"
| "parse_value (Suc n) s =
     (case s of
        [] \<Rightarrow> None
      | c # cs \<Rightarrow>
          if c = 123 then
            (if startsWith (skip_ws cs) [125] then Some (Obj [], drop 1 (skip_ws cs))
             else (case parse_members n [] (skip_ws cs) of
                     None \<Rightarrow> None | Some (kvs, r) \<Rightarrow> Some (Obj kvs, r)))
          else if c = 91 then
            (if startsWith (skip_ws cs) [93] then Some (Arr [], drop 1 (skip_ws cs))
             else (case parse_elements n [] (skip_ws cs) of
                     None \<Rightarrow> None | Some (vs, r) \<Rightarrow> Some (Arr vs, r)))
          else if c = 34 then
            (case parse_string_chars [] cs of None \<Rightarrow> None | Some (str, r) \<Rightarrow> Some (Str str, r))
          else if startsWith s (ascii ''true'') then Some (Bool True, drop 4 s)
          else if startsWith s (ascii ''false'') then Some (Bool False, drop 5 s)
          else if startsWith s (ascii ''null'') then Some (Null, drop 4 s)
          else (case parse_number s of None \<Rightarrow> None | Some (lx, r) \<Rightarrow> Some (Num lx, r)))"
| "parse_elements 0 acc s = None"
| "parse_elements (Suc n) acc s =
     (case parse_value n s of
        None \<Rightarrow> None
      | Some (v, r) \<Rightarrow>
          (case skip_ws r of
             [] \<Rightarrow> None
           | d # ds \<Rightarrow>
               if d = 44 then parse_elements n (acc @ [v]) (skip_ws ds)
               else if d = 93 then Some (acc @ [v], ds)
               else None))"
| "parse_members 0 acc s = None"
| "parse_members (Suc n) acc s =
     (case s of
        [] \<Rightarrow> None
      | q # cs \<Rightarrow>
          if q \<noteq> 34 then None
          else
            (case parse_string_chars [] cs of
               None \<Rightarrow> None
             | Some (k, r) \<Rightarrow>
                 (case skip_ws r of
                    [] \<Rightarrow> None
                  | colon # r2 \<Rightarrow>
                      if colon \<noteq> 58 then None
                      else
                        (case parse_value n (skip_ws r2) of
                           None \<Rightarrow> None
                         | Some (v, r3) \<Rightarrow>
                             (case skip_ws r3 of
                                [] \<Rightarrow> None
                              | d # ds \<Rightarrow>
                                  if d = 44 then parse_members n (acc @ [(k, v)]) (skip_ws ds)
                                  else if d = 125 then Some (acc @ [(k, v)], ds)
                                  else None)))))"

definition JSON_parse :: "jsstring \<Rightarrow> jsval option" where
  "JSON_parse text =
     (case parse_value (2 * length text + 2) (skip_ws text) of
        None \<Rightarrow> None
      | Some (v, r) \<Rightarrow> if skip_ws r = [] then Some v else None)"

section \<open>The stream event model (\<open>ClaudeStreamingClient.ts\<close>, \<open>types/index.ts\<close>)\<close>

datatype msgtype = Text | Thinking | ToolUse | ToolResult | Progress | Complete | Error

record StreamingMessage =
  sm_type :: msgtype
  sm_content :: jsval
  sm_metadata :: jsval

text \<open>
  The numbers kept in \<open>timestamp\<close>, \<open>createdAt\<close> and \<open>updatedAt\<close> are time values: readings
  of \<open>Date.now()\<close> and of \<open>getTime()\<close>, which are a whole number of milliseconds or, for an
  invalid date, \<open>NaN\<close>. \<open>subtract b a\<close> is \<open>b - a\<close>, which is \<open>NaN\<close> as soon as one side is, and
  \<open>isPositive v\<close> is the test \<open>v > 0\<close>, false for \<open>NaN\<close>.
\<close>

datatype number = NaN | Whole int

fun subtract :: "number \<Rightarrow> number \<Rightarrow> number" where
  "subtract (Whole b) (Whole a) = Whole (b - a)"
| "subtract b a = NaN"

fun isPositive :: "number \<Rightarrow> bool" where
  "isPositive (Whole d) = (0 < d)"
| "isPositive NaN = False"

record ClaudeMessage =
  cm_id :: jsval
  cm_role :: jsval
  cm_content :: jsstring
  cm_timestamp :: number
  cm_metadata :: jsval

text \<open>
  The sink: the four callbacks of \<open>StreamingCallbacks\<close>, all supplied, recording what they
  are called with. The subprocess client never calls \<open>onProgress\<close>.
\<close>

datatype callback =
    OnMessage StreamingMessage
  | OnProgress jsval
  | OnComplete ClaudeMessage
  | OnError jsval

subsection \<open>\<open>isThinkingContent\<close>\<close>

definition thinkingIndicators :: "jsstring list" where
  "thinkingIndicators =
     [ascii ''I need to'', ascii ''Let me'', ascii ''First, I'', ascii ''I should'',
      ascii ''I'' @ [39] @ ascii ''ll need to'',
      ascii ''Looking at'', ascii ''Based on'', ascii ''To solve this'', ascii ''I can see'',
      ascii ''analyzing'', ascii ''considering'', ascii ''thinking'', ascii ''examining'',
      ascii ''planning'', ascii ''preparing'', ascii ''organizing'', ascii ''structuring'',
      ascii ''preciso'', ascii ''vou'', ascii ''primeiro'', ascii ''analisando'',
      ascii ''pensando'']"

text \<open>The thinking emoji U+1F914 is the surrogate pair D83E DD14.\<close>

definition thinkingEmoji :: jsstring where
  "thinkingEmoji = [55358, 56596]"

definition isThinkingContent :: "jsstring \<Rightarrow> bool" where
  "isThinkingContent content =
     (list_ex (\<lambda>indicator. str_includes (toLowerCase content) (toLowerCase indicator))
        thinkingIndicators
      \<or> startsWith content thinkingEmoji
      \<or> str_includes content (ascii ''...''))"

subsection \<open>\<open>processStreamingLine\<close>\<close>

text \<open>
  The body of the \<open>try\<close> block yields the callbacks made so far, the text handed to the
  content collector with type \<open>text\<close> (the caller appends it to \<open>fullResponse\<close>), and whether
  the block ran to its end: \<open>False\<close> is an exception, which the \<open>catch\<close> turns into the
  plain-text treatment of the line. Writes to the output channel are not part of the
  model, but the conversions their template literals perform are, since they can raise.
\<close>

type_synonym outcome = "callback list \<times> jsstring \<times> bool"

definition raised :: outcome where
  "raised = ([], [], False)"

definition usageOf :: "jsval \<Rightarrow> jsval" where
  "usageOf usage =
     (if truthy usage then
        Obj [(ascii ''inputTokens'', or_else (get_opt usage (ascii ''input_tokens'')) (Num (ascii ''0''))),
             (ascii ''outputTokens'', or_else (get_opt usage (ascii ''output_tokens'')) (Num (ascii ''0'')))]
      else Undefined)"

text \<open>\<open>data.type === 'system' && data.subtype === 'init'\<close> (lines 204 to 211).\<close>

definition systemInit :: "jsval \<Rightarrow> outcome" where
  "systemInit data =
     (case ToString (get_opt data (ascii ''session_id'')) of
        None \<Rightarrow> raised
      | Some logged \<Rightarrow>
          ([OnMessage \<lparr>sm_type = Progress,
                       sm_content = Str (ascii ''Initializing Claude session...''),
                       sm_metadata = Obj [(ascii ''sessionId'', get_opt data (ascii ''session_id''))]\<rparr>],
           [], True))"

text \<open>
  \<open>langMap[fileExt]\<close>: the object literal's own keys, and the two all-lowercase names it
  inherits from \<open>Object.prototype\<close>.
\<close>

definition langMap :: "jsstring \<Rightarrow> jsval" where
  "langMap fileExt =
     (case map_of
         [(ascii ''js'', ascii ''javascript''), (ascii ''ts'', ascii ''typescript''),
          (ascii ''py'', ascii ''python''), (ascii ''cs'', ascii ''csharp''),
          (ascii ''java'', ascii ''java''), (ascii ''cpp'', ascii ''cpp''), (ascii ''c'', ascii ''c''),
          (ascii ''html'', ascii ''html''), (ascii ''css'', ascii ''css''),
          (ascii ''json'', ascii ''json''), (ascii ''xml'', ascii ''xml'')] fileExt of
        Some l \<Rightarrow> Str l
      | None \<Rightarrow>
          if fileExt = ascii ''constructor'' then Native (ascii ''function Object() { [native code] }'')
          else if fileExt = ascii ''__proto__'' then Native (ascii ''[object Object]'')
          else Undefined)"

definition printed :: "jsval \<Rightarrow> jsstring" where
  "printed v = (case ToString v of None \<Rightarrow> [] | Some t \<Rightarrow> t)"

text \<open>A \<open>tool_use\<close> block named \<open>Write\<close> (lines 223 to 249). \<open>filePath.split\<close> raises unless
  \<open>filePath\<close> is a string.\<close>

definition writeBlock :: "jsval \<Rightarrow> jsval \<Rightarrow> outcome" where
  "writeBlock data block =
     (let filePath = or_else (get_opt (get_opt block (ascii ''input'')) (ascii ''file_path'')) (Str []);
          fileContent = or_else (get_opt (get_opt block (ascii ''input'')) (ascii ''content'')) (Str [])
      in case filePath of
           Str path \<Rightarrow>
             (let fileExt = toLowerCase (last (str_split 46 path));
                  detectedLang = or_else (langMap fileExt) (Str (ascii ''code''))
              in case ToString fileContent of
                   None \<Rightarrow> raised
                 | Some written \<Rightarrow>
                     ([OnMessage \<lparr>sm_type = ToolUse,
                                  sm_content = Str (ascii ''Creating file: '' @ path @ [10] @ ascii ''```''
                                                   @ printed detectedLang @ [10] @ written @ [10] @ ascii ''```''),
                                  sm_metadata = Obj [(ascii ''toolName'', Str (ascii ''Write'')),
                                                     (ascii ''sessionId'', get_opt data (ascii ''session_id'')),
                                                     (ascii ''filePath'', filePath),
                                                     (ascii ''language'', detectedLang),
                                                     (ascii ''isCodeFile'', Bool True)]\<rparr>],
                      written, True))
         | _ \<Rightarrow> raised)"

text \<open>The loop over \<open>message.content\<close> (lines 220 to 250): the third component is the
  \<open>content\<close> accumulated from the text blocks, \<open>None\<close> when a block raised.\<close>

fun contentBlocks ::
  "jsval \<Rightarrow> jsval list \<Rightarrow> jsstring \<Rightarrow> callback list \<times> jsstring \<times> jsstring option" where
  "contentBlocks data [] content = ([], [], Some content)"
| "contentBlocks data (block # blocks) content =
     (case get block (ascii ''type'') of
        None \<Rightarrow> ([], [], None)
      | Some ty \<Rightarrow>
          if ty = Str (ascii ''text'') then
            (case ToString (get_opt block (ascii ''text'')) of
               None \<Rightarrow> ([], [], None)
             | Some t \<Rightarrow> contentBlocks data blocks (content @ t))
          else if ty = Str (ascii ''tool_use'') \<and> get_opt block (ascii ''name'') = Str (ascii ''Write'') then
            (case writeBlock data block of
               (cbs, col, ok) \<Rightarrow>
                 if ok then
                   (case contentBlocks data blocks content of
                      (cbs', col', r) \<Rightarrow> (cbs @ cbs', col @ col', r))
                 else (cbs, col, None))
          else contentBlocks data blocks content)"

text \<open>\<open>data.type === 'assistant' && data.message\<close> (lines 213 to 273).\<close>

definition assistantMessage :: "jsval \<Rightarrow> jsval \<Rightarrow> outcome" where
  "assistantMessage data message =
     (case (case get_opt message (ascii ''content'') of
              Arr blocks \<Rightarrow> contentBlocks data blocks []
            | Str s \<Rightarrow> ([], [], Some s)
            | _ \<Rightarrow> ([], [], Some [])) of
        (cbs, col, None) \<Rightarrow> (cbs, col, False)
      | (cbs, col, Some content) \<Rightarrow>
          if content \<noteq> [] then
            (let messageType = (if isThinkingContent content then Thinking else Text)
             in (cbs @ [OnMessage \<lparr>sm_type = messageType,
                                    sm_content = Str content,
                                    sm_metadata = Obj [(ascii ''sessionId'', get_opt data (ascii ''session_id'')),
                                                       (ascii ''usage'', usageOf (get_opt message (ascii ''usage''))),
                                                       (ascii ''requestId'', get_opt message (ascii ''id''))]\<rparr>],
                 col @ (if messageType = Text then content else []),
                 True))
          else (cbs, col, True))"

text \<open>
  \<open>data.type === 'result'\<close> (lines 275 to 297). The log lines convert \<open>duration_ms\<close> and,
  when \<open>usage\<close> is truthy, the token counts; \<open>total_cost_usd.toFixed\<close> raises for a truthy
  value that is not a number. The \<open>subtype\<close> and \<open>result\<close> members are not read.
\<close>

definition isNum :: "jsval \<Rightarrow> bool" where
  "isNum v = (case v of Num lx \<Rightarrow> True | _ \<Rightarrow> False)"

definition resultRaises :: "jsval \<Rightarrow> bool" where
  "resultRaises data =
     (ToString (get_opt data (ascii ''duration_ms'')) = None
      \<or> (truthy (get_opt data (ascii ''usage''))
          \<and> (ToString (get_opt (get_opt data (ascii ''usage'')) (ascii ''input_tokens'')) = None
              \<or> ToString (get_opt (get_opt data (ascii ''usage'')) (ascii ''output_tokens'')) = None
              \<or> (truthy (get_opt data (ascii ''total_cost_usd''))
                  \<and> (if isNum (get_opt data (ascii ''total_cost_usd'')) then False else True)))))"

definition resultSummary :: "jsval \<Rightarrow> outcome" where
  "resultSummary data =
     (if resultRaises data then raised
      else
        ([OnMessage \<lparr>sm_type = Progress,
                     sm_content = Str (ascii ''Completed in '' @ printed (get_opt data (ascii ''duration_ms''))
                                      @ ascii ''ms''),
                     sm_metadata = Obj [(ascii ''usage'', usageOf (get_opt data (ascii ''usage''))),
                                        (ascii ''sessionId'', get_opt data (ascii ''session_id''))]\<rparr>],
         [], True))"

text \<open>\<open>data.type === 'error'\<close> (lines 299 to 301).\<close>

definition errorLine :: "jsval \<Rightarrow> outcome" where
  "errorLine data =
     ([OnError (or_else (or_else (get_opt data (ascii ''message''))
                                 (get_opt (get_opt data (ascii ''error'')) (ascii ''message'')))
                        (Str (ascii ''Unknown error'')))],
      [], True)"

text \<open>Any other parsed value (lines 303 to 315): the collector's \<open>fullResponse += content\<close>
  converts \<open>content\<close> after the event has been delivered.\<close>

definition unknownLine :: "jsstring \<Rightarrow> jsval \<Rightarrow> outcome" where
  "unknownLine line data =
     (case ToString (get_opt data (ascii ''type'')) of
        None \<Rightarrow> raised
      | Some logged \<Rightarrow>
          (let content = or_else (or_else (or_else (get_opt data (ascii ''content''))
                                                   (get_opt data (ascii ''text'')))
                                          (get_opt data (ascii ''message'')))
                                 (Str line)
           in if truthy content then
                (case ToString content of
                   None \<Rightarrow> ([OnMessage \<lparr>sm_type = Text, sm_content = content, sm_metadata = data\<rparr>], [], False)
                 | Some t \<Rightarrow> ([OnMessage \<lparr>sm_type = Text, sm_content = content, sm_metadata = data\<rparr>], t, True))
              else ([], [], True)))"

definition tryBlock :: "jsstring \<Rightarrow> outcome" where
  "tryBlock line =
     (case JSON_parse line of
        None \<Rightarrow> raised
      | Some data \<Rightarrow>
          (case get data (ascii ''type'') of
             None \<Rightarrow> raised
           | Some ty \<Rightarrow>
               if ty = Str (ascii ''system'') \<and> get_opt data (ascii ''subtype'') = Str (ascii ''init'')
                 then systemInit data
               else if ty = Str (ascii ''assistant'') \<and> truthy (get_opt data (ascii ''message''))
                 then assistantMessage data (get_opt data (ascii ''message''))
               else if ty = Str (ascii ''result'') then resultSummary data
               else if ty = Str (ascii ''error'') then errorLine data
               else unknownLine line data))"

text \<open>The \<open>catch\<close> block (lines 317 to 332).\<close>

definition plainText :: "jsstring \<Rightarrow> callback list \<times> jsstring" where
  "plainText line =
     (if trim line \<noteq> [] then
        (let messageType = (if isThinkingContent line then Thinking else Text)
         in ([OnMessage \<lparr>sm_type = messageType, sm_content = Str (line @ [10]), sm_metadata = Undefined\<rparr>],
             if messageType = Text then line @ [10] else []))
      else ([], []))"

text \<open>\<open>processStreamingLine\<close>: the callbacks it makes, and the text it adds to
  \<open>fullResponse\<close>.\<close>

definition processStreamingLine :: "jsstring \<Rightarrow> callback list \<times> jsstring" where
  "processStreamingLine line =
     (case tryBlock line of
        (cbs, col, ok) \<Rightarrow>
          if ok then (cbs, col)
          else (cbs @ fst (plainText line), col @ snd (plainText line)))"

subsection \<open>\<open>streamFromCLI\<close> and \<open>sendMessageStreaming\<close>\<close>

text \<open>
  The state of one request: the three local variables of \<open>streamFromCLI\<close>, whether the
  promise it returns is settled, whether the two-minute timer is still pending, and the
  calls the sink has received, oldest first.
\<close>

record stream_state =
  fullResponse :: jsstring
  messageBuffer :: jsstring
  hasReceivedData :: bool
  settled :: bool
  timerPending :: bool
  sink :: "callback list"

definition initial :: stream_state where
  "initial = \<lparr>fullResponse = [], messageBuffer = [], hasReceivedData = False,
              settled = False, timerPending = True, sink = []\<rparr>"

text \<open>
  \<open>reject(new Error(msg))\<close>: the first settlement of the promise makes the \<open>await\<close> in
  \<open>sendMessageStreaming\<close> raise, and its \<open>catch\<close> (lines 54 to 58) calls \<open>onError\<close> with the
  error's message; later calls have no effect. No handler calls the sink after it has
  called \<open>reject\<close>, so the call of the \<open>catch\<close> is recorded at once.
\<close>

definition reject :: "jsstring \<Rightarrow> stream_state \<Rightarrow> stream_state" where
  "reject msg s =
     (if settled s then s else s\<lparr>settled := True, sink := sink s @ [OnError (Str msg)]\<rparr>)"

definition resolve :: "stream_state \<Rightarrow> stream_state" where
  "resolve s = s\<lparr>settled := True\<rparr>"

text \<open>The loop of the \<open>data\<close> handler over the complete lines (lines 111 to 119).\<close>

fun processLines :: "jsstring list \<Rightarrow> stream_state \<Rightarrow> stream_state" where
  "processLines [] s = s"
| "processLines (line # lines) s =
     (if trim line \<noteq> [] then
        processLines lines
          (s\<lparr>sink := sink s @ fst (processStreamingLine (trim line)),
             fullResponse := fullResponse s @ snd (processStreamingLine (trim line))\<rparr>)
      else processLines lines s)"

text \<open>The events and the collected text of the complete lines of one chunk, and the \<open>data\<close> handler of \<open>stdout\<close>
  (lines 100 to 120): after \<open>const chunk = data.toString()\<close>, and with it.\<close>

definition lineEvents :: "jsstring list \<Rightarrow> callback list" where
  "lineEvents lines =
     concat (map (\<lambda>line. if trim line \<noteq> [] then fst (processStreamingLine (trim line)) else []) lines)"

definition lineTexts :: "jsstring list \<Rightarrow> jsstring" where
  "lineTexts lines =
     concat (map (\<lambda>line. if trim line \<noteq> [] then snd (processStreamingLine (trim line)) else []) lines)"

definition stdoutChunk :: "jsstring \<Rightarrow> stream_state \<Rightarrow> stream_state" where
  "stdoutChunk chunk s =
     (let lines = str_split 10 (messageBuffer s @ chunk)
      in processLines (butlast lines) (s\<lparr>hasReceivedData := True, messageBuffer := last lines\<rparr>))"

definition stdoutData :: "bytes \<Rightarrow> stream_state \<Rightarrow> stream_state" where
  "stdoutData data s = stdoutChunk (Buffer_toString data) s"

text \<open>The \<open>data\<close> handler of \<open>stderr\<close> (lines 122 to 130).\<close>

definition stderrData :: "bytes \<Rightarrow> stream_state \<Rightarrow> stream_state" where
  "stderrData data s =
     (let error = Buffer_toString data
      in if str_includes (toLowerCase error) (ascii ''error'')
            \<or> str_includes (toLowerCase error) (ascii ''failed'')
         then s\<lparr>sink := sink s @ [OnError (Str error)]\<rparr>
         else s)"

text \<open>
  The two \<open>close\<close> handlers (lines 132 to 165 and 182 to 184). The exit code is \<open>None\<close> when
  the process was ended by a signal (\<open>null\<close>); \<open>now\<close> is the reading of \<open>Date.now()\<close>.
\<close>

definition noResponse :: jsstring where
  "noResponse = ascii ''No response received from Claude CLI''"

definition failedWithCode :: "int option \<Rightarrow> jsstring" where
  "failedWithCode code =
     ascii ''Claude CLI failed with code '' @ (case code of None \<Rightarrow> ascii ''null'' | Some c \<Rightarrow> intToString c)"

definition finalMessage :: "jsval \<Rightarrow> int \<Rightarrow> jsstring \<Rightarrow> ClaudeMessage" where
  "finalMessage sessionId now response =
     \<lparr>cm_id = Str (intToString now), cm_role = Str (ascii ''assistant''), cm_content = response,
      cm_timestamp = Whole now,
      cm_metadata = Obj [(ascii ''sessionId'', sessionId), (ascii ''streamingComplete'', Bool True)]\<rparr>"

definition onClose :: "jsval \<Rightarrow> int option \<Rightarrow> int \<Rightarrow> stream_state \<Rightarrow> stream_state" where
  "onClose sessionId code now s =
     (if code = Some 0 then
        (if hasReceivedData s \<and> trim (fullResponse s) \<noteq> [] then
           resolve (s\<lparr>sink := sink s @ [OnComplete (finalMessage sessionId now (fullResponse s))]\<rparr>)
         else reject noResponse (s\<lparr>sink := sink s @ [OnError (Str noResponse)]\<rparr>))
      else reject (failedWithCode code) (s\<lparr>sink := sink s @ [OnError (Str (failedWithCode code))]\<rparr>))
     \<lparr>timerPending := False\<rparr>"

text \<open>The \<open>error\<close> handler of the process (lines 167 to 171).\<close>

definition onProcessError :: "jsstring \<Rightarrow> stream_state \<Rightarrow> stream_state" where
  "onProcessError message s = reject message (s\<lparr>sink := sink s @ [OnError (Str message)]\<rparr>)"

text \<open>The timer (lines 174 to 180): it fires once, unless a \<open>close\<close> cleared it.\<close>

definition timeoutError :: jsstring where
  "timeoutError = ascii ''Claude CLI request timed out after 2 minutes''"

definition onTimeout :: "stream_state \<Rightarrow> stream_state" where
  "onTimeout s =
     (if timerPending s then
        (reject timeoutError (s\<lparr>sink := sink s @ [OnError (Str timeoutError)]\<rparr>))\<lparr>timerPending := False\<rparr>
      else s)"

text \<open>
  What the process and the timer can do during one request, and \<open>sendMessageStreaming\<close>
  as the run of the handlers over such a history, from the initial state.
\<close>

datatype process_event =
    Stdout bytes
  | Stderr bytes
  | Close "int option" int
  | ProcessError jsstring
  | Timeout

fun handle :: "jsval \<Rightarrow> process_event \<Rightarrow> stream_state \<Rightarrow> stream_state" where
  "handle sessionId (Stdout data) s = stdoutData data s"
| "handle sessionId (Stderr data) s = stderrData data s"
| "handle sessionId (Close code now) s = onClose sessionId code now s"
| "handle sessionId (ProcessError message) s = onProcessError message s"
| "handle sessionId Timeout s = onTimeout s"

definition sendMessageStreaming :: "jsval \<Rightarrow> process_event list \<Rightarrow> stream_state" where
  "sendMessageStreaming sessionId history = fold (handle sessionId) history initial"

section \<open>Transcripts (\<open>ClaudeSessionManager.ts\<close>)\<close>

datatype status = Pending | Running | Completed | Failed

record ClaudeTask =
  task_id :: jsstring
  task_title :: jsstring
  task_description :: jsstring
  task_status :: status
  task_messages :: "ClaudeMessage list"
  task_createdAt :: number
  task_updatedAt :: number
  task_metadata :: jsval

text \<open>
  Two services of the platform are parameters of the transcript reader: \<open>getTime v\<close> is the
  reading of \<open>new Date(v).getTime()\<close> for a string, a number, an array or an object \<open>v\<close> (the
  platform's parsing of dates is not modelled; the reading is \<open>NaN\<close> for a text that is no
  date), and \<open>stringify v\<close> is \<open>JSON.stringify(v, null, 2)\<close>. \<open>dateOf getTime v\<close> is
  \<open>new Date(v).getTime()\<close> for any value: \<open>new Date(v)\<close> converts an object to a primitive
  first and raises where \<open>ToString\<close> does (\<open>None\<close>); \<open>undefined\<close>, the reading of a missing
  \<open>timestamp\<close>, is converted to the number \<open>NaN\<close>, \<open>null\<close> to 0, \<open>false\<close> and \<open>true\<close> to 0 and 1.
  Nothing checks the reading: \<open>NaN\<close> is stored like any other time.
\<close>

definition dateOf :: "(jsval \<Rightarrow> number) \<Rightarrow> jsval \<Rightarrow> number option" where
  "dateOf getTime v =
     (case ToString v of
        None \<Rightarrow> None
      | Some t \<Rightarrow>
          Some (case v of
                  Undefined \<Rightarrow> NaN
                | Null \<Rightarrow> Whole 0
                | Bool b \<Rightarrow> Whole (if b then 1 else 0)
                | _ \<Rightarrow> getTime v))"

text \<open>\<open>formatComplexContent\<close> (lines 219 to 239); the wrench U+1F527 is the pair D83D DD27.
  \<open>None\<close> is an exception.\<close>

fun formatItems :: "(jsval \<Rightarrow> jsstring) \<Rightarrow> jsval list \<Rightarrow> jsstring \<Rightarrow> jsstring option" where
  "formatItems stringify [] formatted = Some formatted"
| "formatItems stringify (item # items) formatted =
     (case get item (ascii ''type'') of
        None \<Rightarrow> None
      | Some ty \<Rightarrow>
          if ty = Str (ascii ''text'') then
            (case ToString (get_opt item (ascii ''text'')) of
               None \<Rightarrow> None
             | Some t \<Rightarrow> formatItems stringify items (formatted @ t))
          else if ty = Str (ascii ''tool_use'') then
            (case ToString (get_opt item (ascii ''name'')) of
               None \<Rightarrow> None
             | Some n \<Rightarrow>
                 formatItems stringify items
                   (formatted @ [10, 10, 55357, 56615] @ ascii '' **Tool Use:** '' @ n @ [10]
                    @ (if truthy (get_opt item (ascii ''input''))
                       then ascii ''Parameters: '' @ stringify (get_opt item (ascii ''input'')) @ [10]
                       else [])))
          else
            (case ToString ty of
               None \<Rightarrow> None
             | Some t \<Rightarrow>
                 formatItems stringify items
                   (formatted @ [10] @ ascii ''['' @ t @ ascii '']: '' @ stringify item @ [10])))"

definition formatComplexContent :: "(jsval \<Rightarrow> jsstring) \<Rightarrow> jsval \<Rightarrow> jsstring option" where
  "formatComplexContent stringify content =
     (case content of
        Arr items \<Rightarrow> map_option trim (formatItems stringify items [])
      | _ \<Rightarrow> ToString content)"

text \<open>The loop that turns entries into messages (lines 174 to 192). An entry counts by its
  \<open>type\<close> member; the message's role is copied from \<open>message.role\<close>.\<close>

definition isTurn :: "jsval \<Rightarrow> bool" where
  "isTurn entry =
     (get_opt entry (ascii ''type'') = Str (ascii ''user'')
      \<or> get_opt entry (ascii ''type'') = Str (ascii ''assistant''))"

definition messageContent :: "(jsval \<Rightarrow> jsstring) \<Rightarrow> jsval \<Rightarrow> jsstring option" where
  "messageContent stringify entry =
     (case get (get_opt entry (ascii ''message'')) (ascii ''content'') of
        None \<Rightarrow> None
      | Some (Str s) \<Rightarrow> Some s
      | Some c \<Rightarrow> formatComplexContent stringify c)"

fun entryMessages ::
  "(jsval \<Rightarrow> number) \<Rightarrow> (jsval \<Rightarrow> jsstring) \<Rightarrow> jsval list \<Rightarrow> ClaudeMessage list option" where
  "entryMessages getTime stringify [] = Some []"
| "entryMessages getTime stringify (entry # entries) =
     (case get entry (ascii ''type'') of
        None \<Rightarrow> None
      | Some ty \<Rightarrow>
          if isTurn entry then
            (case (messageContent stringify entry, dateOf getTime (get_opt entry (ascii ''timestamp'')),
                   entryMessages getTime stringify entries) of
               (Some content, Some time, Some messages) \<Rightarrow>
                 Some (\<lparr>cm_id = get_opt entry (ascii ''uuid''),
                        cm_role = get_opt (get_opt entry (ascii ''message'')) (ascii ''role''),
                        cm_content = content,
                        cm_timestamp = time,
                        cm_metadata = Obj [(ascii ''sessionId'', get_opt entry (ascii ''sessionId'')),
                                           (ascii ''requestId'', get_opt entry (ascii ''requestId'')),
                                           (ascii ''toolUseResult'', get_opt entry (ascii ''toolUseResult''))]\<rparr>
                       # messages)
             | _ \<Rightarrow> None)
          else entryMessages getTime stringify entries)"

text \<open>\<open>determineSessionStatus\<close> (lines 241 to 253), on entries none of which is \<open>null\<close>.\<close>

definition determineSessionStatus :: "jsval list \<Rightarrow> status" where
  "determineSessionStatus entries =
     (if get_opt (last entries) (ascii ''type'') = Str (ascii ''user'') then Pending
      else if get_opt (last entries) (ascii ''type'') = Str (ascii ''assistant'') then Completed
      else Completed)"

text \<open>\<open>generateSessionTitle\<close> (lines 255 to 264).\<close>

definition generateSessionTitle :: "ClaudeMessage list \<Rightarrow> jsstring" where
  "generateSessionTitle messages =
     (case find (\<lambda>m. cm_role m = Str (ascii ''user'')) messages of
        None \<Rightarrow> ascii ''Claude Code Session''
      | Some firstUserMessage \<Rightarrow>
          if cm_content firstUserMessage \<noteq> [] then
            trim (replaceAll 10 32 (take 50 (cm_content firstUserMessage)))
            @ (if length (cm_content firstUserMessage) > 50 then ascii ''...'' else [])
          else ascii ''Claude Code Session'')"

text \<open>\<open>parseSessionFile\<close> (lines 145 to 217) on the text of the file; \<open>None\<close> is \<open>null\<close>, which
  the function also returns when anything in its body raises.\<close>

definition transcriptLines :: "jsstring \<Rightarrow> jsstring list" where
  "transcriptLines content = filter (\<lambda>line. trim line \<noteq> []) (str_split 10 (trim content))"

definition transcriptEntries :: "jsstring \<Rightarrow> jsval list" where
  "transcriptEntries content = List.map_filter JSON_parse (transcriptLines content)"

definition parseSessionFile ::
  "(jsval \<Rightarrow> number) \<Rightarrow> (jsval \<Rightarrow> jsstring) \<Rightarrow> jsstring \<Rightarrow> jsstring \<Rightarrow> ClaudeTask option" where
  "parseSessionFile getTime stringify content sessionId =
     (if transcriptLines content = [] then None
      else
        (let entries = transcriptEntries content
         in if entries = [] then None
            else
              (case (entryMessages getTime stringify entries,
                     dateOf getTime (get_opt (hd entries) (ascii ''timestamp'')),
                     dateOf getTime (get_opt (last entries) (ascii ''timestamp''))) of
                 (Some messages, Some created, Some updated) \<Rightarrow>
                   Some \<lparr>task_id = sessionId,
                         task_title = generateSessionTitle messages,
                         task_description = ascii ''Claude Code Session - '' @ natToString (length messages)
                                            @ ascii '' messages'',
                         task_status = determineSessionStatus entries,
                         task_messages = messages,
                         task_createdAt = created,
                         task_updatedAt = updated,
                         task_metadata = Obj [(ascii ''sessionId'', Str sessionId),
                                              (ascii ''cwd'', get_opt (hd entries) (ascii ''cwd'')),
                                              (ascii ''version'', get_opt (hd entries) (ascii ''version'')),
                                              (ascii ''gitBranch'', get_opt (hd entries) (ascii ''gitBranch''))]\<rparr>
               | _ \<Rightarrow> None)))"

text \<open>\<open>getSession\<close> (lines 93 to 108): \<open>file\<close> is the text of the session's transcript, \<open>None\<close>
  when no such file exists.\<close>

definition getSession ::
  "(jsval \<Rightarrow> number) \<Rightarrow> (jsval \<Rightarrow> jsstring) \<Rightarrow> bool \<Rightarrow> jsstring option \<Rightarrow> jsstring \<Rightarrow> ClaudeTask option" where
  "getSession getTime stringify hasWorkspaceFolder file sessionId =
     (if hasWorkspaceFolder then
        (case file of None \<Rightarrow> None | Some content \<Rightarrow> parseSessionFile getTime stringify content sessionId)
      else None)"

text \<open>\<open>getProjectKey\<close> (lines 266 to 269), and the reverse mapping \<open>getAllSessions\<close> applies to
  a directory name (line 303).\<close>

definition getProjectKey :: "jsstring \<Rightarrow> jsstring" where
  "getProjectKey projectPath =
     (let dashed = replaceAll 47 45 projectPath
      in if startsWith dashed [45] then drop 1 dashed else dashed)"

definition projectDirOf :: "jsstring \<Rightarrow> jsstring" where
  "projectDirOf projectDir = replaceAll 45 47 projectDir"

section \<open>The orchestrator (\<open>ClaudeCodeManager\<close>)\<close>

subsection \<open>\<open>loadClaudeCodeSessions\<close>\<close>

text \<open>\<open>arr.findIndex(p)\<close>, which is \<open>-1\<close> when no element satisfies \<open>p\<close>.\<close>

fun findIndex :: "('a \<Rightarrow> bool) \<Rightarrow> 'a list \<Rightarrow> int" where
  "findIndex p [] = - 1"
| "findIndex p (x # xs) =
     (if p x then 0 else (if findIndex p xs < 0 then - 1 else findIndex p xs + 1))"

text \<open>The filter of lines 828 to 830: a session stays when it is the first of the array
  with its id.\<close>

definition uniqueSessions :: "ClaudeTask list \<Rightarrow> ClaudeTask list" where
  "uniqueSessions allSessions =
     map snd
       (filter (\<lambda>(index, session). findIndex (\<lambda>s. task_id s = task_id session) allSessions = int index)
          (enumerate 0 allSessions))"

text \<open>
  \<open>sort((a, b) => b.updatedAt - a.updatedAt)\<close>. A isPositive value of the comparator puts \<open>b\<close>
  before \<open>a\<close>; the value \<open>NaN\<close>, which the comparator returns as soon as one of the two times
  is \<open>NaN\<close>, is taken as \<open>+0\<close> by the platform's sort (\<open>SortCompare\<close>): the two sessions count
  as equal and keep their order. The platform's sort is stable, and for a comparator
  that orders consistently the result of a stable sort is determined: it is the one this
  insertion sort computes. With \<open>NaN\<close> among the times the comparator is not consistent
  and the language leaves the order to the implementation, of which this insertion sort
  is one; on the lists of three sessions used below, the run detection and binary
  insertion of V8 make the same comparisons with the same outcome.
\<close>

definition byUpdatedAt :: "ClaudeTask \<Rightarrow> ClaudeTask \<Rightarrow> number" where
  "byUpdatedAt a b = subtract (task_updatedAt b) (task_updatedAt a)"

fun insertByUpdatedAt :: "ClaudeTask \<Rightarrow> ClaudeTask list \<Rightarrow> ClaudeTask list" where
  "insertByUpdatedAt a [] = [a]"
| "insertByUpdatedAt a (b # bs) =
     (if isPositive (byUpdatedAt a b) then b # insertByUpdatedAt a bs else a # b # bs)"

definition sortByUpdatedAt :: "ClaudeTask list \<Rightarrow> ClaudeTask list" where
  "sortByUpdatedAt sessions = foldr insertByUpdatedAt sessions []"

definition loadClaudeCodeSessions :: "ClaudeTask list \<Rightarrow> ClaudeTask list \<Rightarrow> ClaudeTask list" where
  "loadClaudeCodeSessions realSessions tasks = sortByUpdatedAt (uniqueSessions (realSessions @ tasks))"

subsection \<open>Choosing the transport\<close>

















section \<open>Sample data\<close>

text \<open>A session with a given id and time of last update, for concrete instances.\<close>

definition sampleTask :: "string \<Rightarrow> number \<Rightarrow> ClaudeTask" where
  "sampleTask name time =
     \<lparr>task_id = ascii name, task_title = [], task_description = [], task_status = Pending,
      task_messages = [], task_createdAt = Whole 0, task_updatedAt = time, task_metadata = Undefined\<rparr>"

text \<open>Two transcripts: a user turn, a line that is not JSON and an assistant turn; and a user
  turn whose text has a line break (written \<open>\n\<close> in the JSON text).\<close>

definition sampleTranscript :: jsstring where
  "sampleTranscript =
     ascii ''{\"type\":\"user\",\"message\":{\"role\":\"user\",\"content\":\"hello\"},\"timestamp\":\"t1\"}'' @ [10]
     @ ascii ''not a transcript entry'' @ [10]
     @ ascii ''{\"type\":\"assistant\",\"message\":{\"role\":\"assistant\",\"content\":[{\"type\":\"text\",\"text\":\"hi\"}]},\"timestamp\":\"t2\"}''
     @ [10]"




definition summaryTranscript :: jsstring where
  "summaryTranscript =
     ascii ''{\"type\":\"user\",\"message\":{\"role\":\"user\",\"content\":\"hello\"},\"timestamp\":\"t1\"}'' @ [10]
     @ ascii ''{\"type\":\"summary\",\"summary\":\"A greeting\"}'' @ [10]"

section \<open>Properties of the project key\<close>

lemma replaceAll_free: "a \<noteq> b \<Longrightarrow> a \<notin> set (replaceAll a b s)"
  by (auto simp: replaceAll_def)

text \<open>
  C10. The project key is not injective: two different absolute paths have the same key.
  The reverse mapping of \<open>getAllSessions\<close> gives a text without any \<open>-\<close>, so it never gives
  back a path that contains one.
\<close>

theorem getProjectKey_collides_and_is_not_reversed:
  "(\<exists>p q. p \<noteq> q \<and> startsWith p [47] \<and> startsWith q [47] \<and> getProjectKey p = getProjectKey q)
   \<and> (\<forall>p. 45 \<in> set p \<longrightarrow> projectDirOf (getProjectKey p) \<noteq> p)"
proof
  have "ascii ''/a/b'' \<noteq> ascii ''/a-b''"
    by (simp add: ascii_def)
  moreover have "startsWith (ascii ''/a/b'') [47]" "startsWith (ascii ''/a-b'') [47]"
    by (simp_all add: ascii_def)
  moreover have "getProjectKey (ascii ''/a/b'') = getProjectKey (ascii ''/a-b'')"
    by (simp add: getProjectKey_def replaceAll_def ascii_def)
  ultimately show "\<exists>p q. p \<noteq> q \<and> startsWith p [47] \<and> startsWith q [47] \<and> getProjectKey p = getProjectKey q"
    by blast
next
  show "\<forall>p. 45 \<in> set p \<longrightarrow> projectDirOf (getProjectKey p) \<noteq> p"
  proof (intro allI impI notI)
    fix p :: jsstring
    assume dash: "45 \<in> set p" and same: "projectDirOf (getProjectKey p) = p"
    have "45 \<notin> set (projectDirOf (getProjectKey p))"
      unfolding projectDirOf_def by (rule replaceAll_free) simp
    with dash same show False by simp
  qed
qed

theorem getProjectKey_my_app:
  "45 \<in> set (ascii ''/home/me/my-app'')
   \<and> getProjectKey (ascii ''/home/me/my-app'') = ascii ''home-me-my-app''
   \<and> projectDirOf (getProjectKey (ascii ''/home/me/my-app'')) = ascii ''home/me/my/app''
   \<and> projectDirOf (getProjectKey (ascii ''/home/me/my-app'')) \<noteq> ascii ''/home/me/my-app''"
  using getProjectKey_collides_and_is_not_reversed
  by (simp add: getProjectKey_def projectDirOf_def replaceAll_def ascii_def)

section \<open>The fuel of the JSON reader\<close>

text \<open>
  The reader never runs out of fuel: a remaining input is shorter after every value, and
  with the fuel \<open>JSON_parse\<close> gives, one more unit changes nothing. So \<open>None\<close> is a syntax
  error of the text, for every text.
\<close>

lemma length_skip_ws: "length (skip_ws s) \<le> length s"
  by (simp add: skip_ws_def length_dropWhile_le)

lemma parse_string_chars_shorter:
  "parse_string_chars acc s = Some (str, r) \<Longrightarrow> length r < length s"
proof (induction acc s rule: parse_string_chars.induct)
  case (1 acc)
  then show ?case by simp
next
  case (2 acc c)
  then show ?case by (simp split: if_splits)
next
  case (3 acc c e cs)
  show ?case
  proof (cases "c = 34")
    case True
    with "3.prems" show ?thesis by simp
  next
    case n34: False
    show ?thesis
    proof (cases "c = 92")
      case True
      show ?thesis
      proof (cases "e = 117")
        case u: True
        from "3.prems" n34 True u obtain h1 h2 h3 h4 rest x where
          cs: "cs = h1 # h2 # h3 # h4 # rest" and h: "hex4 h1 h2 h3 h4 = Some x"
          and p: "parse_string_chars (acc @ [x]) rest = Some (str, r)"
          by (simp split: list.splits option.splits)
        from "3.IH"(1) [OF n34 True u cs refl refl refl h p] cs show ?thesis by simp
      next
        case nu: False
        from "3.prems" n34 True nu obtain x where
          h: "simple_escape e = Some x" and p: "parse_string_chars (acc @ [x]) cs = Some (str, r)"
          by (simp split: option.splits)
        from "3.IH"(2) [OF n34 True nu h p] show ?thesis by simp
      qed
    next
      case n92: False
      with "3.prems" n34 have c32: "\<not> c < 32"
        and p: "parse_string_chars (acc @ [c]) (e # cs) = Some (str, r)"
        by (simp_all split: if_splits)
      from "3.IH"(3) [OF n34 n92 c32 p] show ?thesis by simp
    qed
  qed
qed


lemma number_int_shorter: "number_int s = Some (ip, r) \<Longrightarrow> length r < length s"
proof (cases s)
  case Nil
  assume "number_int s = Some (ip, r)"
  with Nil show ?thesis by (simp add: number_int_def)
next
  case (Cons c cs)
  assume a: "number_int s = Some (ip, r)"
  have "length (dropWhile isDigit cs) \<le> length cs" by (rule length_dropWhile_le)
  with a Cons show ?thesis
    by (auto simp: number_int_def split: if_splits)
qed

lemma number_frac_shorter: "number_frac s = Some (fr, r) \<Longrightarrow> length r \<le> length s"
proof (cases s)
  case Nil
  assume "number_frac s = Some (fr, r)"
  with Nil show ?thesis by (simp add: number_frac_def)
next
  case (Cons c cs)
  assume a: "number_frac s = Some (fr, r)"
  have "length (dropWhile isDigit cs) \<le> length cs" by (rule length_dropWhile_le)
  with a Cons show ?thesis
    by (auto simp: number_frac_def split: if_splits)
qed

lemma number_sign_shorter: "number_sign s = (sg, r) \<Longrightarrow> length r \<le> length s"
  by (cases s) (auto simp: number_sign_def split: if_splits)

lemma number_exp_shorter: "number_exp s = Some (ex, r) \<Longrightarrow> length r \<le> length s"
proof (cases s)
  case Nil
  assume "number_exp s = Some (ex, r)"
  with Nil show ?thesis by (simp add: number_exp_def)
next
  case (Cons c cs)
  assume a: "number_exp s = Some (ex, r)"
  obtain sg q where q: "number_sign cs = (sg, q)" by (cases "number_sign cs")
  then have "length q \<le> length cs" by (rule number_sign_shorter)
  moreover have "length (dropWhile isDigit q) \<le> length q" by (rule length_dropWhile_le)
  ultimately show ?thesis
    using a Cons q by (auto simp: number_exp_def split: if_splits)
qed

lemma parse_number_shorter:
  "parse_number s = Some (lx, r) \<Longrightarrow> length r < length s"
proof -
  assume a: "parse_number s = Some (lx, r)"
  define s1 where "s1 = (if startsWith s [45] then drop 1 s else s)"
  have l1: "length s1 \<le> length s" by (simp add: s1_def)
  from a obtain ip s2 fr s3 ex where "number_int s1 = Some (ip, s2)"
    "number_frac s2 = Some (fr, s3)" "number_exp s3 = Some (ex, r)"
    by (auto simp: parse_number_def s1_def split: if_splits option.splits)
  then have "length s2 < length s1" "length s3 \<le> length s2" "length r \<le> length s3"
    by (auto dest: number_int_shorter number_frac_shorter number_exp_shorter)
  with l1 show ?thesis by simp
qed


lemma drop_skip_ws_shorter: "length (drop k (skip_ws cs)) < Suc (length cs)"
  using length_skip_ws [of cs] by simp

lemma parse_shorter:
  "parse_value n s = Some (v, r) \<Longrightarrow> length r < length s"
  "parse_elements n acc s = Some (vs, r) \<Longrightarrow> length r < length s"
  "parse_members n kacc s = Some (kvs, r) \<Longrightarrow> length r < length s"
proof (induction n s and n acc s and n kacc s arbitrary: v r and vs r and kvs r
    rule: parse_value_parse_elements_parse_members.induct)
  case (1 s)
  then show ?case by simp
next
  case (2 n s)
  then obtain c cs where s: "s = c # cs" by (cases s) auto
  have ws: "length (skip_ws cs) \<le> length cs" by (rule length_skip_ws)
  show ?case
  proof (cases "c = 123")
    case True
    show ?thesis
    proof (cases "startsWith (skip_ws cs) [125]")
      case b: True
      with "2.prems" s True ws show ?thesis by auto
    next
      case b: False
      with "2.prems" s True obtain kvs where "parse_members n [] (skip_ws cs) = Some (kvs, r)"
        by (auto split: option.splits)
      from "2.IH"(1) [OF s True b this] ws s show ?thesis by simp
    qed
  next
    case n123: False
    show ?thesis
    proof (cases "c = 91")
      case True
      show ?thesis
      proof (cases "startsWith (skip_ws cs) [93]")
        case b: True
        with "2.prems" s n123 True ws show ?thesis by auto
      next
        case b: False
        with "2.prems" s n123 True obtain vs where "parse_elements n [] (skip_ws cs) = Some (vs, r)"
          by (auto split: option.splits)
        from "2.IH"(2) [OF s n123 True b this] ws s show ?thesis by simp
      qed
    next
      case n91: False
      show ?thesis
      proof (cases "c = 34")
        case True
        with "2.prems" s n123 n91 obtain str where "parse_string_chars [] cs = Some (str, r)"
          by (auto split: option.splits)
        from parse_string_chars_shorter [OF this] s show ?thesis by simp
      next
        case n34: False
        from "2.prems" s n123 n91 n34 have
          "r = drop 4 s \<or> r = drop 5 s \<or> (\<exists>lx. parse_number s = Some (lx, r))"
          by (auto split: if_splits option.splits)
        then show ?thesis using s by (auto dest: parse_number_shorter)
      qed
    qed
  qed
next
  case (3 acc s)
  then show ?case by simp
next
  case (4 n acc s)
  from "4.prems" obtain v r1 where v: "parse_value n s = Some (v, r1)"
    by (auto split: option.splits)
  from "4.IH"(1) [OF v] have l1: "length r1 < length s" .
  from "4.prems" v obtain d ds where d: "skip_ws r1 = d # ds"
    by (auto split: list.splits)
  have l2: "length (skip_ws r1) \<le> length r1" by (rule length_skip_ws)
  show ?case
  proof (cases "d = 44")
    case True
    with "4.prems" v d have "parse_elements n (acc @ [v]) (skip_ws ds) = Some (vs, r)" by simp
    from "4.IH"(2) [OF v refl d True this] have "length r < length (skip_ws ds)" .
    with length_skip_ws [of ds] d l1 l2 show ?thesis by simp
  next
    case False
    with "4.prems" v d have "r = ds" by (simp split: if_splits)
    with d l1 l2 show ?thesis by simp
  qed
next
  case (5 acc s)
  then show ?case by simp
next
  case (6 n acc s)
  from "6.prems" obtain q cs where s: "s = q # cs" and q: "q = 34"
    by (cases s) (auto split: if_splits)
  from "6.prems" s q obtain k r1 where k: "parse_string_chars [] cs = Some (k, r1)"
    by (auto split: option.splits)
  from parse_string_chars_shorter [OF k] have l1: "length r1 < length cs" .
  from "6.prems" s q k obtain colon r2 where c: "skip_ws r1 = colon # r2" and c58: "colon = 58"
    by (auto split: list.splits if_splits)
  from "6.prems" s q k c c58 obtain v r3 where v: "parse_value n (skip_ws r2) = Some (v, r3)"
    by (auto split: option.splits)
  from "6.prems" s q k c c58 v obtain d ds where d: "skip_ws r3 = d # ds"
    by (auto split: list.splits)
  have q': "\<not> q \<noteq> 34" using q by simp
  have c58': "\<not> colon \<noteq> 58" using c58 by simp
  from "6.IH"(1) [OF s q' k refl c c58' ] v have l3: "length r3 < length (skip_ws r2)" by blast
  have bound: "length (skip_ws r3) < length s"
    using l1 l3 length_skip_ws [of r1] length_skip_ws [of r2] length_skip_ws [of r3] c s by simp
  show ?case
  proof (cases "d = 44")
    case True
    with "6.prems" s q k c c58 v d have p: "parse_members n (acc @ [(k, v)]) (skip_ws ds) = Some (kvs, r)"
      by simp
    from "6.IH"(2) [OF s q' k refl c c58' v refl d True p] have "length r < length (skip_ws ds)" .
    with length_skip_ws [of ds] d bound show ?thesis by simp
  next
    case False
    with "6.prems" s q k c c58 v d have "r = ds" by (simp split: if_splits)
    with d bound show ?thesis by simp
  qed
qed


lemma parse_fuel_step:
  "2 * length s + 1 \<le> n \<Longrightarrow> parse_value (Suc n) s = parse_value n s"
  "2 * length s + 2 \<le> n \<Longrightarrow> parse_elements (Suc n) acc s = parse_elements n acc s"
  "2 * length s + 2 \<le> n \<Longrightarrow> parse_members (Suc n) kacc s = parse_members n kacc s"
proof (induction n s and n acc s and n kacc s
    rule: parse_value_parse_elements_parse_members.induct)
  case (1 s)
  then show ?case by simp
next
  case (2 n s)
  show ?case
  proof (cases s)
    case Nil
    then show ?thesis by simp
  next
    case (Cons c cs)
    have ws: "length (skip_ws cs) \<le> length cs" by (rule length_skip_ws)
    with "2.prems" Cons have b: "2 * length (skip_ws cs) + 2 \<le> n" by simp
    have M: "parse_members (Suc n) [] (skip_ws cs) = parse_members n [] (skip_ws cs)"
      if "c = 123" "\<not> startsWith (skip_ws cs) [125]"
      using "2.IH"(1) [OF Cons that b] .
    have E: "parse_elements (Suc n) [] (skip_ws cs) = parse_elements n [] (skip_ws cs)"
      if "c \<noteq> 123" "c = 91" "\<not> startsWith (skip_ws cs) [93]"
      using "2.IH"(2) [OF Cons that b] .
    show ?thesis
      unfolding parse_value.simps(2) [of "Suc n" s] parse_value.simps(2) [of n s]
      by (simp add: Cons M E del: parse_value.simps parse_elements.simps parse_members.simps)
  qed
next
  case (3 acc s)
  then show ?case by simp
next
  case (4 n acc s)
  from "4.prems" have "2 * length s + 1 \<le> n" by simp
  from "4.IH"(1) [OF this] have V: "parse_value (Suc n) s = parse_value n s" .
  show ?case
  proof (cases "parse_value n s")
    case None
    with V show ?thesis
      unfolding parse_elements.simps(2) [of "Suc n" acc s] parse_elements.simps(2) [of n acc s]
      by (simp del: parse_value.simps parse_elements.simps parse_members.simps)
  next
    case (Some a)
    obtain v r where a: "a = (v, r)" by (cases a)
    from Some a have l: "length r < length s" by (simp add: parse_shorter(1))
    show ?thesis
    proof (cases "skip_ws r")
      case Nil
      with V Some a show ?thesis
        unfolding parse_elements.simps(2) [of "Suc n" acc s] parse_elements.simps(2) [of n acc s]
        by (simp del: parse_value.simps parse_elements.simps parse_members.simps)
    next
      case (Cons d ds)
      have "length (skip_ws ds) \<le> length ds" by (rule length_skip_ws)
      moreover have "length (skip_ws r) \<le> length r" by (rule length_skip_ws)
      ultimately have "2 * length (skip_ws ds) + 2 \<le> n"
        using l Cons "4.prems" by simp
      then have "parse_elements (Suc n) (acc @ [v]) (skip_ws ds) = parse_elements n (acc @ [v]) (skip_ws ds)"
        if "d = 44"
        using "4.IH"(2) [OF Some [unfolded a] refl Cons that] by simp
      with V Some a Cons show ?thesis
        unfolding parse_elements.simps(2) [of "Suc n" acc s] parse_elements.simps(2) [of n acc s]
        by (simp del: parse_value.simps parse_elements.simps parse_members.simps)
    qed
  qed
next
  case (5 acc s)
  then show ?case by simp
next
  case (6 n kacc s)
  show ?case
  proof (cases s)
    case Nil
    then show ?thesis
      unfolding parse_members.simps(2) [of "Suc n" kacc s] parse_members.simps(2) [of n kacc s]
      by (simp del: parse_value.simps parse_elements.simps parse_members.simps)
  next
    case s: (Cons q cs)
    show ?thesis
    proof (cases "q \<noteq> 34")
      case True
      with s show ?thesis
      unfolding parse_members.simps(2) [of "Suc n" kacc s] parse_members.simps(2) [of n kacc s]
      by (simp del: parse_value.simps parse_elements.simps parse_members.simps)
    next
      case q: False
      show ?thesis
      proof (cases "parse_string_chars [] cs")
        case None
        with s q show ?thesis
      unfolding parse_members.simps(2) [of "Suc n" kacc s] parse_members.simps(2) [of n kacc s]
      by (simp del: parse_value.simps parse_elements.simps parse_members.simps)
      next
        case (Some a)
        obtain k r where a: "a = (k, r)" by (cases a)
        from Some a have l1: "length r < length cs" by (simp add: parse_string_chars_shorter)
        show ?thesis
        proof (cases "skip_ws r")
          case Nil
          with s q Some a show ?thesis
      unfolding parse_members.simps(2) [of "Suc n" kacc s] parse_members.simps(2) [of n kacc s]
      by (simp del: parse_value.simps parse_elements.simps parse_members.simps)
        next
          case c: (Cons colon r2)
          show ?thesis
          proof (cases "colon \<noteq> 58")
            case True
            with s q Some a c show ?thesis
      unfolding parse_members.simps(2) [of "Suc n" kacc s] parse_members.simps(2) [of n kacc s]
      by (simp del: parse_value.simps parse_elements.simps parse_members.simps)
          next
            case c58: False
            have l2: "length (skip_ws r2) < length cs"
              using l1 length_skip_ws [of r] length_skip_ws [of r2] c by simp
            with "6.prems" s have "2 * length (skip_ws r2) + 1 \<le> n" by simp
            from "6.IH"(1) [OF s q Some [unfolded a] refl c c58 this]
            have V: "parse_value (Suc n) (skip_ws r2) = parse_value n (skip_ws r2)" .
            show ?thesis
            proof (cases "parse_value n (skip_ws r2)")
              case None
              with s q Some a c c58 V show ?thesis
      unfolding parse_members.simps(2) [of "Suc n" kacc s] parse_members.simps(2) [of n kacc s]
      by (simp del: parse_value.simps parse_elements.simps parse_members.simps)
            next
              case v: (Some b)
              obtain v r3 where b: "b = (v, r3)" by (cases b)
              from v b have l3: "length r3 < length (skip_ws r2)" by (simp add: parse_shorter(1))
              show ?thesis
              proof (cases "skip_ws r3")
                case Nil
                with s q Some a c c58 V v b show ?thesis
      unfolding parse_members.simps(2) [of "Suc n" kacc s] parse_members.simps(2) [of n kacc s]
      by (simp del: parse_value.simps parse_elements.simps parse_members.simps)
              next
                case d: (Cons d ds)
                have "2 * length (skip_ws ds) + 2 \<le> n"
                  using l2 l3 length_skip_ws [of r3] length_skip_ws [of ds] d "6.prems" s by simp
                then have "parse_members (Suc n) (kacc @ [(k, v)]) (skip_ws ds)
                             = parse_members n (kacc @ [(k, v)]) (skip_ws ds)"
                  if "d = 44"
                  using "6.IH"(2) [OF s q Some [unfolded a] refl c c58 v [unfolded b] refl d that] by simp
                with s q Some a c c58 V v b d show ?thesis
      unfolding parse_members.simps(2) [of "Suc n" kacc s] parse_members.simps(2) [of n kacc s]
      by (simp del: parse_value.simps parse_elements.simps parse_members.simps)
              qed
            qed
          qed
        qed
      qed
    qed
  qed
qed

lemma parse_value_more_fuel:
  "2 * length s + 1 \<le> n \<Longrightarrow> parse_value (n + k) s = parse_value n s"
proof (induction k)
  case 0
  show ?case by simp
next
  case (Suc k)
  then have "2 * length s + 1 \<le> n + k" by simp
  then have "parse_value (Suc (n + k)) s = parse_value (n + k) s"
    by (rule parse_fuel_step(1))
  with Suc show ?case by (simp del: parse_value.simps)
qed

lemma JSON_parse_more_fuel:
  "JSON_parse t
     = (case parse_value (2 * length t + 2 + k) (skip_ws t) of
          None \<Rightarrow> None
        | Some (v, r) \<Rightarrow> if skip_ws r = [] then Some v else None)"
proof -
  have "2 * length (skip_ws t) + 1 \<le> 2 * length t + 2"
    using length_skip_ws [of t] by simp
  then show ?thesis
    by (simp only: JSON_parse_def parse_value_more_fuel)
qed

section \<open>Properties of the merged session list\<close>

lemma findIndex_ge: "findIndex p xs \<ge> - 1"
  by (induction xs) auto

lemma findIndex_neg: "findIndex p xs < 0 \<longleftrightarrow> (\<forall>x \<in> set xs. \<not> p x)"
  by (induction xs) (use findIndex_ge in \<open>auto simp: less_le\<close>)

lemma findIndex_nth:
  "findIndex p xs = int i \<Longrightarrow> i < length xs \<and> p (xs ! i) \<and> find p xs = Some (xs ! i)"
proof (induction xs arbitrary: i)
  case Nil
  then show ?case by simp
next
  case (Cons x xs)
  show ?case
  proof (cases "p x")
    case True
    with Cons.prems show ?thesis by simp
  next
    case False
    with Cons.prems have "\<not> findIndex p xs < 0" and "findIndex p xs + 1 = int i"
      by (auto split: if_splits)
    then obtain j where j: "i = Suc j" "findIndex p xs = int j"
      by (cases i) auto
    from Cons.IH [OF j(2)] False j(1) show ?thesis by simp
  qed
qed

lemma findIndex_exists:
  assumes "\<exists>x \<in> set xs. p x"
  shows "\<exists>i. findIndex p xs = int i"
proof -
  from assms have "\<not> findIndex p xs < 0"
    by (simp add: findIndex_neg)
  then have "0 \<le> findIndex p xs" by simp
  then show ?thesis by (metis nonneg_int_cases)
qed

lemma set_uniqueSessions:
  "set (uniqueSessions xs)
     = {xs ! i | i. i < length xs \<and> findIndex (\<lambda>s. task_id s = task_id (xs ! i)) xs = int i}"
  by (auto simp: uniqueSessions_def in_set_enumerate_eq image_iff)

lemma subset_uniqueSessions: "set (uniqueSessions xs) \<subseteq> set xs"
  by (auto simp: set_uniqueSessions)

lemma distinct_uniqueSessions: "distinct (map task_id (uniqueSessions xs))"
proof -
  let ?keep = "\<lambda>(index, session). findIndex (\<lambda>s. task_id s = task_id session) xs = int index"
  have d: "distinct (filter ?keep (enumerate 0 xs))"
    by (simp add: distinct_enumerate)
  have "inj_on (\<lambda>e. task_id (snd e)) (set (filter ?keep (enumerate 0 xs)))"
    by (rule inj_onI) (auto simp: in_set_enumerate_eq)
  with d have "distinct (map (\<lambda>e. task_id (snd e)) (filter ?keep (enumerate 0 xs)))"
    by (simp add: distinct_map)
  then show ?thesis by (simp add: uniqueSessions_def comp_def)
qed

lemma first_uniqueSessions:
  "s \<in> set (uniqueSessions xs) \<Longrightarrow> find (\<lambda>x. task_id x = task_id s) xs = Some s"
  by (auto simp: set_uniqueSessions dest: findIndex_nth)

lemma ids_uniqueSessions: "task_id ` set (uniqueSessions xs) = task_id ` set xs"
proof
  show "task_id ` set (uniqueSessions xs) \<subseteq> task_id ` set xs"
    by (auto simp: set_uniqueSessions)
next
  show "task_id ` set xs \<subseteq> task_id ` set (uniqueSessions xs)"
  proof
    fix k assume "k \<in> task_id ` set xs"
    then have "\<exists>y \<in> set xs. task_id y = k" by auto
    from findIndex_exists [of xs "\<lambda>s. task_id s = k", OF this]
    obtain i where i: "findIndex (\<lambda>s. task_id s = k) xs = int i" by blast
    from findIndex_nth [OF i] have l: "i < length xs" and e: "task_id (xs ! i) = k" by auto
    from i e have "findIndex (\<lambda>s. task_id s = task_id (xs ! i)) xs = int i" by simp
    with l have "xs ! i \<in> set (uniqueSessions xs)" by (auto simp: set_uniqueSessions)
    with e show "k \<in> task_id ` set (uniqueSessions xs)" by force
  qed
qed

lemma mset_insertByUpdatedAt: "mset (insertByUpdatedAt a bs) = add_mset a (mset bs)"
  by (induction bs) auto

lemma mset_sortByUpdatedAt: "mset (sortByUpdatedAt xs) = mset xs"
  by (induction xs) (auto simp: sortByUpdatedAt_def mset_insertByUpdatedAt)

lemma set_insertByUpdatedAt: "set (insertByUpdatedAt a bs) = insert a (set bs)"
  by (induction bs) auto

lemma set_sortByUpdatedAt: "set (sortByUpdatedAt xs) = set xs"
  using mset_sortByUpdatedAt [of xs] by (rule mset_eq_setD)

lemma isPositive_byUpdatedAt:
  "isPositive (byUpdatedAt a b)
     \<longleftrightarrow> (\<exists>x y. task_updatedAt a = Whole x \<and> task_updatedAt b = Whole y \<and> x < y)"
  by (cases "task_updatedAt a"; cases "task_updatedAt b") (auto simp: byUpdatedAt_def)

lemma sorted_insertByUpdatedAt:
  assumes "\<forall>s \<in> insert a (set bs). task_updatedAt s \<noteq> NaN"
    and "sorted_wrt (\<lambda>a b. \<exists>x y. task_updatedAt a = Whole x \<and> task_updatedAt b = Whole y \<and> y \<le> x) bs"
  shows "sorted_wrt (\<lambda>a b. \<exists>x y. task_updatedAt a = Whole x \<and> task_updatedAt b = Whole y \<and> y \<le> x)
           (insertByUpdatedAt a bs)"
  using assms
proof (induction bs)
  case Nil
  then show ?case by simp
next
  case (Cons b bs)
  from Cons.prems(1) obtain x y where xy: "task_updatedAt a = Whole x" "task_updatedAt b = Whole y"
    by (cases "task_updatedAt a"; cases "task_updatedAt b") auto
  show ?case
  proof (cases "isPositive (byUpdatedAt a b)")
    case True
    with xy have "x < y" by (simp add: isPositive_byUpdatedAt)
    with Cons xy True show ?thesis by (auto simp: set_insertByUpdatedAt)
  next
    case False
    with xy have "y \<le> x" by (simp add: isPositive_byUpdatedAt)
    with Cons.prems xy False show ?thesis by (fastforce simp: isPositive_byUpdatedAt)
  qed
qed

lemma sorted_sortByUpdatedAt:
  "\<forall>s \<in> set xs. task_updatedAt s \<noteq> NaN \<Longrightarrow>
   sorted_wrt (\<lambda>a b. \<exists>x y. task_updatedAt a = Whole x \<and> task_updatedAt b = Whole y \<and> y \<le> x)
     (sortByUpdatedAt xs)"
proof (induction xs)
  case Nil
  then show ?case by (simp add: sortByUpdatedAt_def)
next
  case (Cons a xs)
  then have s: "sorted_wrt (\<lambda>a b. \<exists>x y. task_updatedAt a = Whole x \<and> task_updatedAt b = Whole y \<and> y \<le> x)
                  (sortByUpdatedAt xs)" by simp
  from Cons.prems have "\<forall>s \<in> insert a (set (sortByUpdatedAt xs)). task_updatedAt s \<noteq> NaN"
    by (simp add: set_sortByUpdatedAt)
  from sorted_insertByUpdatedAt [OF this s] show ?case
    by (simp add: sortByUpdatedAt_def)
qed

text \<open>
  The merged list, for every input. The list returned by \<open>loadClaudeCodeSessions\<close> has one
  session for each id of the sessions from disk followed by the tasks in memory, and that
  session is the first one with its id in this concatenation, whatever the times are.
  When no \<open>updatedAt\<close> is \<open>NaN\<close>, the list is in descending order of \<open>updatedAt\<close>.
\<close>

theorem loadClaudeCodeSessions_unique_first_sorted:
  "distinct (map task_id (loadClaudeCodeSessions realSessions tasks))
   \<and> task_id ` set (loadClaudeCodeSessions realSessions tasks) = task_id ` set (realSessions @ tasks)
   \<and> (\<forall>s \<in> set (loadClaudeCodeSessions realSessions tasks).
         find (\<lambda>x. task_id x = task_id s) (realSessions @ tasks) = Some s)
   \<and> ((\<forall>s \<in> set (realSessions @ tasks). task_updatedAt s \<noteq> NaN) \<longrightarrow>
        sorted_wrt (\<lambda>a b. \<exists>x y. task_updatedAt a = Whole x \<and> task_updatedAt b = Whole y \<and> y \<le> x)
          (loadClaudeCodeSessions realSessions tasks))"
proof -
  let ?all = "realSessions @ tasks"
  have m: "mset (loadClaudeCodeSessions realSessions tasks) = mset (uniqueSessions ?all)"
    by (simp add: loadClaudeCodeSessions_def mset_sortByUpdatedAt)
  then have s: "set (loadClaudeCodeSessions realSessions tasks) = set (uniqueSessions ?all)"
    by (rule mset_eq_setD)
  from m have "mset (map task_id (loadClaudeCodeSessions realSessions tasks))
                 = mset (map task_id (uniqueSessions ?all))"
    by simp
  then have "distinct (map task_id (loadClaudeCodeSessions realSessions tasks))
               = distinct (map task_id (uniqueSessions ?all))"
    by (rule mset_eq_imp_distinct_iff)
  then have 1: "distinct (map task_id (loadClaudeCodeSessions realSessions tasks))"
    by (simp add: distinct_uniqueSessions)
  have 2: "task_id ` set (loadClaudeCodeSessions realSessions tasks) = task_id ` set ?all"
    unfolding s by (rule ids_uniqueSessions)
  have 3: "\<forall>s \<in> set (loadClaudeCodeSessions realSessions tasks).
             find (\<lambda>x. task_id x = task_id s) ?all = Some s"
    unfolding s by (blast intro: first_uniqueSessions)
  have 4: "sorted_wrt (\<lambda>a b. \<exists>x y. task_updatedAt a = Whole x \<and> task_updatedAt b = Whole y \<and> y \<le> x)
             (loadClaudeCodeSessions realSessions tasks)"
    if n: "\<forall>s \<in> set ?all. task_updatedAt s \<noteq> NaN"
  proof -
    from n subset_uniqueSessions [of ?all] have "\<forall>s \<in> set (uniqueSessions ?all). task_updatedAt s \<noteq> NaN" by blast
    then show ?thesis
      unfolding loadClaudeCodeSessions_def by (rule sorted_sortByUpdatedAt)
  qed
  from 1 2 3 4 show ?thesis by blast
qed

theorem loadClaudeCodeSessions_shared_id:
  "loadClaudeCodeSessions [sampleTask ''a'' (Whole 5), sampleTask ''b'' (Whole 9)]
      [sampleTask ''a'' (Whole 7), sampleTask ''c'' (Whole 9)]
     = [sampleTask ''b'' (Whole 9), sampleTask ''c'' (Whole 9), sampleTask ''a'' (Whole 5)]
   \<and> find (\<lambda>x. task_id x = ascii ''a'')
        ([sampleTask ''a'' (Whole 5), sampleTask ''b'' (Whole 9)]
         @ [sampleTask ''a'' (Whole 7), sampleTask ''c'' (Whole 9)])
     = Some (sampleTask ''a'' (Whole 5))"
  using loadClaudeCodeSessions_unique_first_sorted
          [of "[sampleTask ''a'' (Whole 5), sampleTask ''b'' (Whole 9)]"
              "[sampleTask ''a'' (Whole 7), sampleTask ''c'' (Whole 9)]"]
  by (simp add: loadClaudeCodeSessions_def uniqueSessions_def sortByUpdatedAt_def sampleTask_def
        ascii_def enumerate_eq_zip byUpdatedAt_def)

text \<open>
  C9. The order fails when a time is \<open>NaN\<close>. The session read from a transcript whose last
  line has no \<open>timestamp\<close> has the time \<open>NaN\<close>, whatever the platform's reading of dates is.
  With such a session between one updated at 5 and one updated at 9, every comparison
  with it gives \<open>NaN\<close>, the two others are never compared, and the list comes back in the
  order it had: the session updated at 5 stays before the one updated at 9.
\<close>

theorem loadClaudeCodeSessions_NaN_keeps_order:
  "(\<exists>t. getSession getTime stringify True (Some summaryTranscript) (ascii ''b'') = Some t
        \<and> task_id t = ascii ''b'' \<and> task_updatedAt t = NaN
        \<and> loadClaudeCodeSessions [sampleTask ''a'' (Whole 5), t, sampleTask ''c'' (Whole 9)] []
            = [sampleTask ''a'' (Whole 5), t, sampleTask ''c'' (Whole 9)])
   \<and> map task_updatedAt
        (loadClaudeCodeSessions [sampleTask ''a'' (Whole 5), sampleTask ''b'' NaN, sampleTask ''c'' (Whole 9)] [])
     = [Whole 5, NaN, Whole 9]"
proof -
  have l: "transcriptLines summaryTranscript \<noteq> []" by code_simp
  have e: "transcriptEntries summaryTranscript =
     [Obj [(ascii ''type'', Str (ascii ''user'')),
           (ascii ''message'', Obj [(ascii ''role'', Str (ascii ''user'')),
                                    (ascii ''content'', Str (ascii ''hello''))]),
           (ascii ''timestamp'', Str (ascii ''t1''))],
      Obj [(ascii ''type'', Str (ascii ''summary'')), (ascii ''summary'', Str (ascii ''A greeting''))]]"
    by code_simp
  obtain t where g: "getSession getTime stringify True (Some summaryTranscript) (ascii ''b'') = Some t"
    and i: "task_id t = ascii ''b''" and u: "task_updatedAt t = NaN"
    by (simp add: getSession_def parseSessionFile_def l e Let_def dateOf_def get_opt_def isTurn_def
          messageContent_def ascii_def split: option.splits)
  from i u
  have "loadClaudeCodeSessions [sampleTask ''a'' (Whole 5), t, sampleTask ''c'' (Whole 9)] []
          = [sampleTask ''a'' (Whole 5), t, sampleTask ''c'' (Whole 9)]"
    by (simp add: loadClaudeCodeSessions_def uniqueSessions_def sortByUpdatedAt_def sampleTask_def
          ascii_def enumerate_eq_zip byUpdatedAt_def)
  moreover
  have "map task_updatedAt
          (loadClaudeCodeSessions [sampleTask ''a'' (Whole 5), sampleTask ''b'' NaN, sampleTask ''c'' (Whole 9)] [])
        = [Whole 5, NaN, Whole 9]"
    by (simp add: loadClaudeCodeSessions_def uniqueSessions_def sortByUpdatedAt_def sampleTask_def
          ascii_def enumerate_eq_zip byUpdatedAt_def)
  ultimately show ?thesis using g i u by blast
qed

section \<open>Properties of the choice of transport\<close>





section \<open>Properties of the subprocess transport\<close>

text \<open>
  C7. When the process closes with exit code 0 and no data was received, or the text
  collected in \<open>fullResponse\<close> is blank, the close handler calls \<open>onError\<close> with the message
  \<open>No response received from Claude CLI\<close>, and the rejection it causes reports the same
  message once more when the promise was not settled before; it does not call
  \<open>onComplete\<close>.
\<close>

theorem onClose_without_response:
  "\<not> hasReceivedData s \<or> trim (fullResponse s) = [] \<Longrightarrow>
   sink (onClose sessionId (Some 0) now s)
     = sink s @ OnError (Str (ascii ''No response received from Claude CLI''))
              # (if settled s then [] else [OnError (Str (ascii ''No response received from Claude CLI''))])
   \<and> (\<forall>m. OnComplete m \<notin> set (drop (length (sink s)) (sink (onClose sessionId (Some 0) now s))))"
  by (auto simp: onClose_def reject_def noResponse_def)

theorem onClose_without_response_no_output:
  "sink (sendMessageStreaming Undefined [Close (Some 0) 1700000000000])
     = [OnError (Str (ascii ''No response received from Claude CLI'')),
        OnError (Str (ascii ''No response received from Claude CLI''))]
   \<and> sink (sendMessageStreaming Undefined [Stdout (ascii ''   '' @ [10]), Close (Some 0) 1700000000000])
     = [OnError (Str (ascii ''No response received from Claude CLI'')),
        OnError (Str (ascii ''No response received from Claude CLI''))]"
proof -
  let ?s = "stdoutData (ascii ''   '' @ [10]) initial"
  have s: "sink ?s = []" "settled ?s = False" "trim (fullResponse ?s) = []" "hasReceivedData ?s"
    by code_simp+
  have a: "sink (onClose Undefined (Some 0) 1700000000000 initial)
             = [OnError (Str (ascii ''No response received from Claude CLI'')),
                OnError (Str (ascii ''No response received from Claude CLI''))]"
    using onClose_without_response [of initial Undefined 1700000000000]
    by (simp add: initial_def)
  have b: "sink (onClose Undefined (Some 0) 1700000000000 ?s)
             = [OnError (Str (ascii ''No response received from Claude CLI'')),
                OnError (Str (ascii ''No response received from Claude CLI''))]"
    using onClose_without_response [of ?s Undefined 1700000000000] s
    by simp
  from a b show ?thesis
    by (simp add: sendMessageStreaming_def)
qed

section \<open>Lines, trimming and fragments\<close>

lemma str_split_nonempty: "str_split sep s \<noteq> []"
  by (induction s) (auto split: list.splits)

lemma str_split_append:
  "str_split sep (xs @ ys)
     = butlast (str_split sep xs) @ str_split sep (last (str_split sep xs) @ ys)"
proof (induction xs)
  case Nil
  show ?case by simp
next
  case (Cons c cs)
  obtain l ls where s: "str_split sep cs = l # ls"
    using str_split_nonempty [of sep cs] by (cases "str_split sep cs") auto
  show ?case
  proof (cases "c = sep")
    case True
    with Cons s show ?thesis by simp
  next
    case False
    show ?thesis
    proof (cases ls)
      case Nil
      with False Cons s show ?thesis by simp
    next
      case (Cons a as)
      with False Cons.IH s show ?thesis by simp
    qed
  qed
qed

lemma str_split_no_sep: "sep \<notin> set l \<Longrightarrow> str_split sep l = [l]"
  by (induction l) auto

lemma str_split_line: "sep \<notin> set l \<Longrightarrow> str_split sep (l @ [sep]) = [l, []]"
  by (induction l) auto

lemma last_dropWhile: "dropWhile P xs \<noteq> [] \<Longrightarrow> last (dropWhile P xs) = last xs"
  by (induction xs) auto

lemma dropWhile_fixed: "xs = [] \<or> \<not> P (hd xs) \<Longrightarrow> dropWhile P xs = xs"
  by (cases xs) auto

lemma dropWhile_rev_dropWhile:
  "dropWhile P (rev (dropWhile P (rev (dropWhile P s)))) = rev (dropWhile P (rev (dropWhile P s)))"
proof (cases "dropWhile P (rev (dropWhile P s)) = []")
  case True
  show ?thesis by (simp only: True rev.simps dropWhile.simps)
next
  case False
  let ?u = "dropWhile P s"
  let ?v = "dropWhile P (rev ?u)"
  have une: "?u \<noteq> []"
  proof
    assume e: "?u = []"
    have "?v = []" by (simp only: e rev.simps dropWhile.simps)
    with False show False by blast
  qed
  then have h: "\<not> P (hd ?u)" by (rule hd_dropWhile)
  have "hd (rev ?v) = last ?v" by (rule hd_rev)
  also have "\<dots> = last (rev ?u)" by (rule last_dropWhile [OF False])
  also have "\<dots> = hd ?u" by (rule last_rev)
  finally have "\<not> P (hd (rev ?v))" using h by simp
  then show ?thesis by (intro dropWhile_fixed disjI2)
qed

lemma trim_trim: "trim (trim s) = trim s"
  by (simp add: trim_def dropWhile_rev_dropWhile)

lemma processLines_eq:
  "processLines ls s
     = s\<lparr>sink := sink s @ lineEvents ls, fullResponse := fullResponse s @ lineTexts ls\<rparr>"
  by (induction ls arbitrary: s) (simp_all add: lineEvents_def lineTexts_def)

lemma lineEvents_append: "lineEvents (xs @ ys) = lineEvents xs @ lineEvents ys"
  by (simp add: lineEvents_def)

lemma lineTexts_append: "lineTexts (xs @ ys) = lineTexts xs @ lineTexts ys"
  by (simp add: lineTexts_def)

lemma stdoutChunk_eq:
  "stdoutChunk chunk s
     = s\<lparr>hasReceivedData := True,
          messageBuffer := last (str_split 10 (messageBuffer s @ chunk)),
          sink := sink s @ lineEvents (butlast (str_split 10 (messageBuffer s @ chunk))),
          fullResponse := fullResponse s @ lineTexts (butlast (str_split 10 (messageBuffer s @ chunk)))\<rparr>"
  by (simp add: stdoutChunk_def Let_def processLines_eq)

lemma stdoutChunk_stdoutChunk:
  "stdoutChunk c2 (stdoutChunk c1 s) = stdoutChunk (c1 @ c2) s"
proof -
  let ?L1 = "str_split 10 (messageBuffer s @ c1)"
  let ?L2 = "str_split 10 (last ?L1 @ c2)"
  have L: "str_split 10 (messageBuffer s @ c1 @ c2) = butlast ?L1 @ ?L2"
    using str_split_append [of 10 "messageBuffer s @ c1" c2] by simp
  have ne: "?L2 \<noteq> []" by (rule str_split_nonempty)
  then have b: "butlast (butlast ?L1 @ ?L2) = butlast ?L1 @ butlast ?L2"
    and l: "last (butlast ?L1 @ ?L2) = last ?L2"
    by (simp_all add: butlast_append)
  show ?thesis
    by (simp add: stdoutChunk_eq L b l lineEvents_append lineTexts_append)
qed

lemma fold_stdoutChunk:
  "fold stdoutChunk chunks (stdoutChunk c s) = stdoutChunk (c @ concat chunks) s"
  by (induction chunks arbitrary: c) (simp_all add: stdoutChunk_stdoutChunk)

lemma stdoutChunk_fragments:
  "chunks \<noteq> [] \<Longrightarrow> fold stdoutChunk chunks s = stdoutChunk (concat chunks) s"
  by (cases chunks) (simp_all add: fold_stdoutChunk)

text \<open>
  C2. The bytes C3 A9 0A are the UTF-8 text of one line, \<open>e\<close> with an acute accent. Delivered in one
  chunk they give one text event with that line; delivered as C3 and then A9 0A they give
  a text event with two replacement characters U+FFFD, since each chunk is decoded on its
  own before it is appended to the buffer. (For chunks of text, \<open>stdoutChunk_fragments\<close>
  above shows that fragmentation changes nothing.)
\<close>

theorem split_character_changes_events:
  "sink (sendMessageStreaming Undefined [Stdout [195, 169, 10]])
     = [OnMessage \<lparr>sm_type = Text, sm_content = Str [233, 10], sm_metadata = Undefined\<rparr>]
   \<and> sink (sendMessageStreaming Undefined [Stdout [195], Stdout [169, 10]])
     = [OnMessage \<lparr>sm_type = Text, sm_content = Str [65533, 65533, 10], sm_metadata = Undefined\<rparr>]"
  by code_simp

section \<open>Properties of \<open>processStreamingLine\<close>\<close>

lemma processStreamingLine_not_JSON:
  "JSON_parse line = None \<Longrightarrow> processStreamingLine line = plainText line"
  by (simp add: processStreamingLine_def tryBlock_def raised_def)

lemma blank_line_no_event:
  assumes "10 \<notin> set line" and "messageBuffer s = []" and "trim line = []"
  shows "sink (stdoutChunk (line @ [10]) s) = sink s"
proof -
  have "str_split 10 (messageBuffer s @ line @ [10]) = [line, []]"
    using assms(1,2) by (simp add: str_split_line)
  then show ?thesis
    using assms(3) by (simp add: stdoutChunk_eq lineEvents_def)
qed

text \<open>
  C8. A complete line without line break in it, arriving on an empty buffer, whose trimmed
  text is not empty and is not JSON, gives exactly one event: its content is the trimmed
  line followed by a line break, its type is \<open>thinking\<close> when the trimmed line contains one
  of the indicators in any letter case, starts with the thinking emoji or contains three
  dots, and \<open>text\<close> otherwise.
\<close>

theorem plain_line_event:
  assumes "10 \<notin> set line" and "messageBuffer s = []"
    and "JSON_parse (trim line) = None" and "trim line \<noteq> []"
  shows "sink (stdoutChunk (line @ [10]) s)
     = sink s @ [OnMessage \<lparr>sm_type =
                     (if list_ex (\<lambda>indicator. str_includes (toLowerCase (trim line)) (toLowerCase indicator))
                           thinkingIndicators
                         \<or> startsWith (trim line) thinkingEmoji
                         \<or> str_includes (trim line) (ascii ''...'')
                      then Thinking else Text),
                   sm_content = Str (trim line @ [10]),
                   sm_metadata = Undefined\<rparr>]"
proof -
  have "str_split 10 (messageBuffer s @ line @ [10]) = [line, []]"
    using assms(1,2) by (simp add: str_split_line)
  then have "sink (stdoutChunk (line @ [10]) s) = sink s @ fst (processStreamingLine (trim line))"
    using assms(4) by (simp add: stdoutChunk_eq lineEvents_def)
  also have "processStreamingLine (trim line) = plainText (trim line)"
    using assms(3) by (rule processStreamingLine_not_JSON)
  finally show ?thesis
    using assms(4) by (simp add: plainText_def trim_trim isThinkingContent_def Let_def)
qed

theorem plain_line_let_me:
  "sink (stdoutChunk (ascii ''Let me check the file first'' @ [10]) initial)
     = [OnMessage \<lparr>sm_type = Thinking, sm_content = Str (ascii ''Let me check the file first'' @ [10]),
                    sm_metadata = Undefined\<rparr>]"
proof -
  let ?line = "ascii ''Let me check the file first''"
  have a: "10 \<notin> set ?line" by (simp add: ascii_def)
  have b: "messageBuffer initial = []" by (simp add: initial_def)
  have t: "trim ?line = ?line" by code_simp
  have c: "JSON_parse (trim ?line) = None" by code_simp
  have d: "trim ?line \<noteq> []" by code_simp
  have e: "list_ex (\<lambda>indicator. str_includes (toLowerCase ?line) (toLowerCase indicator)) thinkingIndicators"
    by code_simp
  have i: "sink initial = []" by (simp add: initial_def)
  from plain_line_event [OF a b c d] show ?thesis
    unfolding t using e by (simp add: i)
qed

text \<open>A line with a leading space gives the content without it, and an empty line gives no
  event.\<close>

theorem blank_and_padded_lines:
  "sink (sendMessageStreaming Undefined [Stdout (ascii '' hi'' @ [10])])
     = [OnMessage \<lparr>sm_type = Text, sm_content = Str (ascii ''hi'' @ [10]), sm_metadata = Undefined\<rparr>]
   \<and> sink (sendMessageStreaming Undefined [Stdout [10]]) = []"
  by code_simp

text \<open>
  C1. A line that parses to an object whose \<open>type\<close> is \<open>result\<close>, whatever its \<open>subtype\<close>, gives one
  \<open>progress\<close> event with the content \<open>Completed in <duration_ms>ms\<close> and collects no text; its
  \<open>result\<close> member is not read. Only when a conversion made for the log raises is the line
  treated as plain text instead.
\<close>

theorem result_line_is_progress:
  assumes "JSON_parse line = Some data" and "get data (ascii ''type'') = Some (Str (ascii ''result''))"
  shows "processStreamingLine line
     = (if resultRaises data then plainText line
        else ([OnMessage \<lparr>sm_type = Progress,
                 sm_content = Str (ascii ''Completed in '' @ printed (get_opt data (ascii ''duration_ms''))
                                  @ ascii ''ms''),
                 sm_metadata = Obj [(ascii ''usage'', usageOf (get_opt data (ascii ''usage''))),
                                    (ascii ''sessionId'', get_opt data (ascii ''session_id''))]\<rparr>],
              []))"
proof -
  have n: "ascii ''result'' \<noteq> ascii ''system''" "ascii ''result'' \<noteq> ascii ''assistant''"
    by (simp_all add: ascii_def)
  from assms n have "tryBlock line = resultSummary data"
    by (simp add: tryBlock_def)
  then show ?thesis
    by (simp add: processStreamingLine_def resultSummary_def raised_def)
qed

theorem result_line_max_turns:
  "processStreamingLine (ascii ''{\"type\":\"result\",\"subtype\":\"error_max_turns\",\"duration_ms\":1200}'')
     = ([OnMessage \<lparr>sm_type = Progress, sm_content = Str (ascii ''Completed in 1200ms''),
                     sm_metadata = Obj [(ascii ''usage'', Undefined), (ascii ''sessionId'', Undefined)]\<rparr>], [])"
proof -
  let ?line = "ascii ''{\"type\":\"result\",\"subtype\":\"error_max_turns\",\"duration_ms\":1200}''"
  let ?data = "Obj [(ascii ''type'', Str (ascii ''result'')), (ascii ''subtype'', Str (ascii ''error_max_turns'')),
                    (ascii ''duration_ms'', Num (ascii ''1200''))]"
  have a: "JSON_parse ?line = Some ?data" by code_simp
  have b: "get ?data (ascii ''type'') = Some (Str (ascii ''result''))" by code_simp
  have c: "resultRaises ?data = False" by code_simp
  have d: "printed (get_opt ?data (ascii ''duration_ms'')) = ascii ''1200''" by code_simp
  have e: "usageOf (get_opt ?data (ascii ''usage'')) = Undefined" by code_simp
  have f: "get_opt ?data (ascii ''session_id'') = Undefined" by code_simp
  have g: "ascii ''Completed in '' @ ascii ''1200'' @ ascii ''ms'' = ascii ''Completed in 1200ms''"
    by (simp add: ascii_def)
  from result_line_is_progress [OF a b] show ?thesis
    by (simp only: c d e f g if_False)
qed

text \<open>The line of the scenario gives one \<open>progress\<close> event, no \<open>text\<close> event and no completion.\<close>

theorem result_success_line_events:
  "sink (sendMessageStreaming Undefined
          [Stdout (ascii ''{\"type\":\"result\",\"subtype\":\"success\",\"result\":\"Done.\"}'' @ [10])])
     = [OnMessage \<lparr>sm_type = Progress, sm_content = Str (ascii ''Completed in undefinedms''),
                    sm_metadata = Obj [(ascii ''usage'', Undefined), (ascii ''sessionId'', Undefined)]\<rparr>]"
  by code_simp

section \<open>Properties of the handlers\<close>

text \<open>
  C6. The \<open>data\<close> handler of \<open>stdout\<close> appends the events of the complete lines of the buffer to
  the sink in every state, whatever the sink has received before and whether or not the
  promise is settled: it keeps no record of an error or a completion.
\<close>

theorem stdoutData_appends:
  "sink (stdoutData data s)
     = sink s @ lineEvents (butlast (str_split 10 (messageBuffer s @ Buffer_toString data)))"
  by (simp add: stdoutData_def stdoutChunk_eq)

theorem stdoutData_after_error:
  "sink (stdoutData (ascii ''still here'' @ [10])
           (initial\<lparr>sink := [OnError (Str (ascii ''boom''))], settled := True\<rparr>))
     = [OnError (Str (ascii ''boom'')),
        OnMessage \<lparr>sm_type = Text, sm_content = Str (ascii ''still here'' @ [10]), sm_metadata = Undefined\<rparr>]"
proof -
  let ?s = "initial\<lparr>sink := [OnError (Str (ascii ''boom''))], settled := True\<rparr>"
  have a: "sink ?s = [OnError (Str (ascii ''boom''))]" by simp
  have b: "lineEvents (butlast (str_split 10 (messageBuffer ?s @ Buffer_toString (ascii ''still here'' @ [10]))))
             = [OnMessage \<lparr>sm_type = Text, sm_content = Str (ascii ''still here'' @ [10]), sm_metadata = Undefined\<rparr>]"
    by code_simp
  from stdoutData_appends [of "ascii ''still here'' @ [10]" ?s] show ?thesis
    by (simp only: a b append.simps)
qed

text \<open>Output that arrives after the timer has fired is delivered after the two error calls.\<close>

theorem output_after_timeout:
  "sink (sendMessageStreaming Undefined [Timeout, Stdout (ascii ''hello'' @ [10])])
     = [OnError (Str timeoutError), OnError (Str timeoutError),
        OnMessage \<lparr>sm_type = Text, sm_content = Str (ascii ''hello'' @ [10]), sm_metadata = Undefined\<rparr>]"
  by code_simp




section \<open>Properties of the transcript reader\<close>







end
